theory Spec2Isabelle
  imports Main "HOL-Library.Word"
begin

section \<open>Panics\<close>

text \<open>
  A Go \<^verbatim>\<open>panic(v)\<close> is a value of the model: every function that can panic returns
  \<open>panic + 'a\<close>, with \<open>Inl\<close> the panic. The panic values of the code are strings
  (\<^verbatim>\<open>panic("...")\<close>), errors built by \<^verbatim>\<open>fmt.Errorf\<close>, the coroutine's
  \<^verbatim>\<open>unwind{}\<close> sentinel, and the panics of the Go runtime itself (a nil function
  called, an index out of range, a failed type assertion).
\<close>

datatype panic =
    PanicString string
  | PanicError string
  | PanicUnwind
  | PanicRuntime string

section \<open>The type register (package types)\<close>

text \<open>
  \<^verbatim>\<open>type serde struct { id int; ser serializerFunc; des deserializerFunc }\<close>.
  A Go function value is either nil or a function: \<open>'f option\<close>.
\<close>

record ('f, 'g) serde =
  serde_id :: int
  ser :: "'f option"
  des :: "'g option"

text \<open>
  \<^verbatim>\<open>type doublemap[K, V comparable] struct { fromK map[K]V; fromV map[V]K }\<close>;
  a nil map reads as the empty map.
\<close>

record ('k, 'v) doublemap =
  fromK :: "'k \<rightharpoonup> 'v"
  fromV :: "'v \<rightharpoonup> 'k"

text \<open>
  \<^verbatim>\<open>type typemap struct { custom []reflect.Type; cache doublemap[...]; serdes map[reflect.Type]serde }\<close>.
  \<open>'ty\<close> stands for \<^verbatim>\<open>reflect.Type\<close>, \<open>'ti\<close> for \<^verbatim>\<open>*typeinfo\<close>.
\<close>

record ('ty, 'ti, 'f, 'g) typemap =
  custom :: "'ty list"
  cache :: "('ty, 'ti) doublemap"
  serdes :: "'ty \<rightharpoonup> ('f, 'g) serde"

definition newTypemap :: "('ty, 'ti, 'f, 'g) typemap" where
  "newTypemap = \<lparr>custom = [], cache = \<lparr>fromK = Map.empty, fromV = Map.empty\<rparr>, serdes = Map.empty\<rparr>"

text \<open>The zero value of \<^verbatim>\<open>serde\<close>, which a lookup of a missing key returns.\<close>

definition zero_serde :: "('f, 'g) serde" where
  "zero_serde = \<lparr>serde_id = 0, ser = None, des = None\<rparr>"

text \<open>
  \<^verbatim>\<open>func (m *typemap) attach(t reflect.Type, ser serializerFunc, des deserializerFunc)\<close>:
  the receiver is mutated in place, so the model returns the new typemap.
\<close>

definition attach ::
  "'ty \<Rightarrow> 'f option \<Rightarrow> 'g option \<Rightarrow> ('ty, 'ti, 'f, 'g) typemap \<Rightarrow> panic + ('ty, 'ti, 'f, 'g) typemap"
where
  "attach t sr ds m =
     (if sr = None \<or> ds = None
      then Inl (PanicString ''both serializer and deserializer need to be provided'')
      else
        (let (s, m1) =
               (case serdes m t of
                  Some s0 \<Rightarrow> (s0, m)
                | None \<Rightarrow> (zero_serde\<lparr>serde_id := int (length (custom m))\<rparr>,
                           m\<lparr>custom := custom m @ [t]\<rparr>));
             s1 = s\<lparr>ser := sr\<rparr>;
             s2 = s1\<lparr>des := ds\<rparr>
         in Inr (m1\<lparr>serdes := (serdes m1)(t \<mapsto> s2)\<rparr>)))"

definition serdeOf :: "('ty, 'ti, 'f, 'g) typemap \<Rightarrow> 'ty \<Rightarrow> ('f, 'g) serde \<times> bool" where
  "serdeOf m x = (case serdes m x of Some s \<Rightarrow> (s, True) | None \<Rightarrow> (zero_serde, False))"

text \<open>
  A sequence of registrations, each a triple of the type and the two callbacks. A panic
  ends the run, as it ends the Go program.
\<close>

fun attach_all ::
  "('ty, 'ti, 'f, 'g) typemap \<Rightarrow> ('ty \<times> 'f option \<times> 'g option) list \<Rightarrow>
   panic + ('ty, 'ti, 'f, 'g) typemap"
where
  "attach_all m [] = Inr m"
| "attach_all m ((t, sr, ds) # ops) =
     (case attach t sr ds m of Inl e \<Rightarrow> Inl e | Inr m' \<Rightarrow> attach_all m' ops)"

text \<open>
  The user's callbacks, \<^verbatim>\<open>func(*Serializer, *T) error\<close> and
  \<^verbatim>\<open>func(*Deserializer, *T) error\<close>: the cursor \<open>'c\<close> is updated and an error
  (its message) may be returned. The closures stored in the register,
  \<^verbatim>\<open>func(*Serializer, unsafe.Pointer)\<close>, return nothing and may panic.
\<close>

type_synonym ('c, 'v) SerializerFunc = "'c \<Rightarrow> 'v \<Rightarrow> string option \<times> 'c"
type_synonym ('c, 'v) serializerFunc = "'c \<Rightarrow> 'v \<Rightarrow> panic + 'c"

text \<open>
  Calling a function value: calling nil is the runtime's nil dereference panic.
\<close>

definition call_func :: "('c, 'v) SerializerFunc option \<Rightarrow> 'c \<Rightarrow> 'v \<Rightarrow> panic + (string option \<times> 'c)" where
  "call_func f cur p =
     (case f of
        None \<Rightarrow> Inl (PanicRuntime ''invalid memory address or nil pointer dereference'')
      | Some g \<Rightarrow> Inr (g cur p))"

text \<open>
  \<^verbatim>\<open>func registerSerde[T any](tm *typemap, serializer ..., deserializer ...)\<close>.
  The type \<open>t\<close> is \<^verbatim>\<open>reflect.TypeOf((*T)(nil)).Elem()\<close>, here the name that
  \<^verbatim>\<open>%s\<close> prints. The two function literals \<open>s\<close> and \<open>d\<close> are closures over
  the callbacks: they are function values, never nil, whatever the callbacks are.
\<close>

definition registerSerde ::
  "(string, 'ti, ('c, 'v) serializerFunc, ('d, 'v) serializerFunc) typemap \<Rightarrow> string \<Rightarrow>
   ('c, 'v) SerializerFunc option \<Rightarrow> ('d, 'v) SerializerFunc option \<Rightarrow>
   panic + (string, 'ti, ('c, 'v) serializerFunc, ('d, 'v) serializerFunc) typemap"
where
  "registerSerde tm t serializer deserializer =
     (let s = (\<lambda>cur p.
                 case call_func serializer cur p of
                   Inl e \<Rightarrow> Inl e
                 | Inr (Some err, cur') \<Rightarrow> Inl (PanicError (''serializing '' @ t @ '': '' @ err))
                 | Inr (None, cur') \<Rightarrow> Inr cur');
          d = (\<lambda>cur p.
                 case call_func deserializer cur p of
                   Inl e \<Rightarrow> Inl e
                 | Inr (Some err, cur') \<Rightarrow> Inl (PanicError (''deserializing '' @ t @ '': '' @ err))
                 | Inr (None, cur') \<Rightarrow> Inr cur')
      in attach t (Some s) (Some d) tm)"

text \<open>\<^verbatim>\<open>func Register[T any](serializer, deserializer)\<close> on the global register \<open>types\<close>.\<close>

definition Register ::
  "(string, 'ti, ('c, 'v) serializerFunc, ('d, 'v) serializerFunc) typemap \<Rightarrow> string \<Rightarrow>
   ('c, 'v) SerializerFunc option \<Rightarrow> ('d, 'v) SerializerFunc option \<Rightarrow>
   panic + (string, 'ti, ('c, 'v) serializerFunc, ('d, 'v) serializerFunc) typemap"
where
  "Register types t serializer deserializer = registerSerde types t serializer deserializer"

text \<open>
  The types of a run in the order of their first registration: what \<open>custom\<close> should hold.
\<close>

fun first_seen :: "'a list \<Rightarrow> 'a list \<Rightarrow> 'a list" where
  "first_seen acc [] = acc"
| "first_seen acc (x # xs) = first_seen (if x \<in> set acc then acc else acc @ [x]) xs"

text \<open>
  The invariant of the register: every registered type's id is an index of \<open>custom\<close>,
  where the type stands; \<open>custom\<close> lists the registered types, each once.
\<close>

definition typemap_inv :: "('ty, 'ti, 'f, 'g) typemap \<Rightarrow> bool" where
  "typemap_inv m =
     ((\<forall>t s. serdes m t = Some s \<longrightarrow>
         0 \<le> serde_id s \<and> serde_id s < int (length (custom m)) \<and> custom m ! nat (serde_id s) = t)
      \<and> set (custom m) = dom (serdes m) \<and> distinct (custom m))"

section \<open>The coroutine context (package coroutine, build tag durable)\<close>

text \<open>
  Modelled from the spec: the declaration of \<^verbatim>\<open>Frame\<close> is not in src. The spec gives
  a frame the fields \<open>ip\<close> and \<open>resume\<close> (and \<open>deferred\<close> and \<open>locals\<close>, which the
  methods below never touch).
\<close>

record frame =
  IP :: int
  Resume :: bool

text \<open>
  Modelled from the spec: the declaration of \<^verbatim>\<open>Stack\<close> is not in src. The spec makes a
  stack an ordered sequence of frames; \<open>Unwinding\<close> reads it as the field \<open>Frames\<close>.
\<close>

record stack =
  Frames :: "frame list"

text \<open>
  Modelled from the spec: the method \<^verbatim>\<open>Top\<close> is not in src. The spec: "Top returns the
  last without mutation". Of an empty stack there is no last frame to return: \<open>None\<close>.
\<close>

definition Top :: "stack \<Rightarrow> frame option" where
  "Top s = (if Frames s = [] then None else Some (Frames s ! (length (Frames s) - 1)))"

text \<open>
  \<^verbatim>\<open>Top\<close> returns a pointer into the stack: an assignment through it writes the last
  element of \<open>Frames\<close>.
\<close>

definition store_top :: "stack \<Rightarrow> frame \<Rightarrow> stack" where
  "store_top s f = s\<lparr>Frames := (Frames s)[length (Frames s) - 1 := f]\<rparr>"

text \<open>
  \<^verbatim>\<open>type Context[R, S any] struct { recv R; send S; done bool; stop bool; Entrypoint Closure; Stack; Heap }\<close>.
  The entry point and the heap play no part in the methods below; the field \<open>done\<close> is
  written \<open>done'\<close>.
\<close>

record ('r, 's) Context =
  recv :: 'r
  send :: 's
  done' :: bool
  stop :: bool
  Stack :: stack

text \<open>
  \<^verbatim>\<open>func (c *Context[R, S]) Yield(value R) S\<close>. The result is the panic or the value
  returned, with the context as the call leaves it. The zero value of \<open>S\<close> is \<open>0\<close>.
  Where the stack is empty, \<^verbatim>\<open>c.Top()\<close> has no frame and the call cannot go on.
\<close>

definition Yield :: "('r, 's::zero) Context \<Rightarrow> 'r \<Rightarrow> (panic + 's) \<times> ('r, 's) Context" where
  "Yield c v =
     (if stop c
      then (Inl (PanicString ''cannot yield from a coroutine that has been stopped''), c)
      else
        (case Top (Stack c) of
           None \<Rightarrow> (Inl (PanicRuntime ''index out of range''), c)
         | Some frame \<Rightarrow>
             if Resume frame
             then
               (let c1 = c\<lparr>Stack := store_top (Stack c) (frame\<lparr>Resume := False\<rparr>)\<rparr>
                in if stop c1 then (Inl PanicUnwind, c1) else (Inr (send c1), c1))
             else
               (let c1 = c\<lparr>Stack := store_top (Stack c) (frame\<lparr>Resume := True\<rparr>)\<rparr>;
                    c2 = c1\<lparr>send := 0\<rparr>;
                    c3 = c2\<lparr>recv := v\<rparr>
                in (Inl PanicUnwind, c3))))"

text \<open>\<^verbatim>\<open>func (c *Context[R, S]) Unwinding() bool\<close>.\<close>

definition Unwinding :: "('r, 's) Context \<Rightarrow> bool" where
  "Unwinding c =
     (length (Frames (Stack c)) > 0 \<and>
      (case Top (Stack c) of Some frame \<Rightarrow> Resume frame | None \<Rightarrow> False))"

text \<open>
  The table of the specification for \<open>Yield\<close>, row by row, with the message of the abort
  as a parameter: abort when \<open>stop\<close> is set; on a top frame that is resuming, clear
  \<open>resume\<close>, then raise the unwind sentinel if \<open>stop\<close> is set and return \<open>send\<close>
  otherwise; on a top frame that is not resuming, store the value into \<open>recv\<close>, clear
  \<open>send\<close>, set \<open>resume\<close> and raise the unwind sentinel.
\<close>

definition set_top_resume :: "('r, 's) Context \<Rightarrow> bool \<Rightarrow> ('r, 's) Context" where
  "set_top_resume c r =
     c\<lparr>Stack := (Stack c)\<lparr>Frames :=
          butlast (Frames (Stack c)) @ [(last (Frames (Stack c)))\<lparr>Resume := r\<rparr>]\<rparr>\<rparr>"

definition Yield_table :: "string \<Rightarrow> ('r, 's::zero) Context \<Rightarrow> 'r \<Rightarrow> (panic + 's) \<times> ('r, 's) Context" where
  "Yield_table msg c v =
     (if stop c then (Inl (PanicString msg), c)
      else if Resume (last (Frames (Stack c)))
      then (if stop (set_top_resume c False)
            then (Inl PanicUnwind, set_top_resume c False)
            else (Inr (send c), set_top_resume c False))
      else (Inl PanicUnwind, (set_top_resume c True)\<lparr>recv := v, send := 0\<rparr>))"

subsection \<open>Marshalling\<close>











section \<open>The compiler: imports of a generated file\<close>

text \<open>
  \<open>addImports\<close> walks the generated file with \<^verbatim>\<open>ast.Inspect\<close>; its callback always
  returns true, so every node is visited, in depth-first order. The model takes the
  nodes in that order. The callback acts on selector expressions only; of a selector
  expression it looks at \<open>X\<close>, which is an identifier or not, and at the object
  \<^verbatim>\<open>p.TypesInfo.ObjectOf(ident)\<close> of the identifier: a package name with the path of the
  imported package, another object, or nil.
\<close>

datatype object = PkgName string | OtherObject | NilObject

datatype selector_x = XIdent string object | XOther

datatype node = Selector selector_x string | OtherNode

text \<open>\<^verbatim>\<open>strings.TrimPrefix\<close> and \<^verbatim>\<open>strings.TrimSuffix\<close>.\<close>

definition TrimPrefix :: "string \<Rightarrow> string \<Rightarrow> string" where
  "TrimPrefix s prefix =
     (if take (length prefix) s = prefix then drop (length prefix) s else s)"

definition TrimSuffix :: "string \<Rightarrow> string \<Rightarrow> string" where
  "TrimSuffix s suffix =
     (if length suffix \<le> length s \<and> drop (length s - length suffix) s = suffix
      then take (length s - length suffix) s else s)"

text \<open>
  The callback of \<^verbatim>\<open>ast.Inspect\<close> in \<open>addImports\<close>, on the map \<open>imports\<close> from local
  names to import paths. The two \<^verbatim>\<open>fmt.Println\<close> before the panic are not modelled.
\<close>

fun inspect_node :: "(string \<rightharpoonup> string) \<Rightarrow> node \<Rightarrow> panic + (string \<rightharpoonup> string)" where
  "inspect_node imports (Selector (XIdent name obj) sel) =
     (if name = [] then Inr imports
      else
        (case obj of
           PkgName path \<Rightarrow>
             if path = [] then Inr imports
             else
               (let pkg = TrimPrefix path ''vendor/'' in
                case imports name of
                  Some existing \<Rightarrow>
                    if existing \<noteq> pkg then Inl (PanicString ''conflicting imports'')
                    else Inr (imports(name \<mapsto> pkg))
                | None \<Rightarrow> Inr (imports(name \<mapsto> pkg)))
         | OtherObject \<Rightarrow> Inr imports
         | NilObject \<Rightarrow> Inr imports))"
| "inspect_node imports (Selector XOther sel) = Inr imports"
| "inspect_node imports OtherNode = Inr imports"

fun inspect_all :: "(string \<rightharpoonup> string) \<Rightarrow> node list \<Rightarrow> panic + (string \<rightharpoonup> string)" where
  "inspect_all imports [] = Inr imports"
| "inspect_all imports (n # ns) =
     (case inspect_node imports n of Inl e \<Rightarrow> Inl e | Inr imports' \<Rightarrow> inspect_all imports' ns)"

text \<open>
  A generated file (\<^verbatim>\<open>ast.File\<close>) is its list of declarations. The import declaration that
  \<open>addImports\<close> puts in front has one \<^verbatim>\<open>ImportSpec\<close> for each entry of \<open>imports\<close>, in
  the order of Go's map iteration, which is not specified: the model keeps the map.
\<close>

datatype 'd decl = ImportDecl "string \<rightharpoonup> string" | Decl 'd

record 'd ast_file =
  Decls :: "'d decl list"

text \<open>\<^verbatim>\<open>func addImports(p *packages.Package, gen *ast.File) *ast.File\<close>.\<close>

definition addImports :: "node list \<Rightarrow> 'd ast_file \<Rightarrow> panic + 'd ast_file" where
  "addImports nodes gen =
     (case inspect_all Map.empty nodes of
        Inl e \<Rightarrow> Inl e
      | Inr imports \<Rightarrow>
          if imports = Map.empty then Inr gen
          else Inr (gen\<lparr>Decls := ImportDecl imports # Decls gen\<rparr>))"

text \<open>
  The end of the loop body of \<open>compilePackage\<close>, from the call of \<open>addImports\<close> on:
  the generated file gets its imports and is written to the path with the
  \<^verbatim>\<open>_durable.go\<close> suffix. \<open>writeFile\<close> is a parameter (it returns the error or nil). An
  error is returned to the caller; a panic is recovered nowhere in \<open>compilePackage\<close>,
  \<open>compile\<close> or \<open>Compile\<close>, so it ends the invocation. \<open>Inr None\<close> is the loop going
  on to the next file.
\<close>

definition compilePackage_emit ::
  "(string \<Rightarrow> 'd ast_file \<Rightarrow> string option) \<Rightarrow> node list \<Rightarrow> 'd ast_file \<Rightarrow> string \<Rightarrow> panic + string option"
where
  "compilePackage_emit writeFile nodes gen goFile =
     (case addImports nodes gen of
        Inl e \<Rightarrow> Inl e
      | Inr gen1 \<Rightarrow>
          (let outputPath = TrimSuffix goFile ''.go'' @ ''_durable.go''
           in Inr (writeFile outputPath gen1)))"

text \<open>
  What a node makes the import synthesizer bind: the local name and the import path
  (without the \<^verbatim>\<open>vendor/\<close> prefix), for a selector on a package name.
\<close>

fun binding :: "node \<Rightarrow> (string \<times> string) option" where
  "binding (Selector (XIdent name (PkgName path)) sel) =
     (if name = [] \<or> path = [] then None else Some (name, TrimPrefix path ''vendor/''))"
| "binding n = None"

definition bindings :: "node list \<Rightarrow> (string \<times> string) set" where
  "bindings nodes = {b. \<exists>n \<in> set nodes. binding n = Some b}"

text \<open>Two distinct modules bound to the same local name.\<close>

definition conflicting :: "node list \<Rightarrow> bool" where
  "conflicting nodes = (\<exists>name p q. (name, p) \<in> bindings nodes \<and> (name, q) \<in> bindings nodes \<and> p \<noteq> q)"

section \<open>The syntax trees of the compiler (go/ast, go/token, go/types)\<close>

text \<open>
  The tokens, types and nodes of the Go packages that the compiler's code names. A token
  \<^verbatim>\<open>token.DEFINE\<close> is written \<open>token_DEFINE\<close>.
\<close>

datatype token =
    token_DEFINE | token_ASSIGN | token_INC | token_DEC | token_LSS | token_EQL | token_NOT | token_AND
  | token_INT | token_STRING | token_BREAK | token_CONTINUE | token_GOTO | token_FALLTHROUGH | token_VAR | token_CONST | token_TYPE | token_IMPORT

text \<open>
  \<^verbatim>\<open>types.Type\<close>: arrays, slices and maps, which \<open>desugar\<close> tells apart, and the rest.
  A defined type (\<^verbatim>\<open>*types.Named\<close>, as in \<^verbatim>\<open>type Set map[string]bool\<close>) is
  \<open>Types_Named name underlying\<close>: a type of its own kind, whatever its underlying type.
\<close>

datatype gotype =
    Types_Array gotype
  | Types_Slice gotype
  | Types_Map gotype gotype
  | Types_Basic string
  | Types_Signature
  | Types_Named string gotype
  | Types_Other string

text \<open>\<^verbatim>\<open>ast.Field\<close> (names and type) and \<^verbatim>\<open>ast.FuncType\<close> (parameters, results or nil).\<close>

datatype field = Field "string list" gotype

datatype functype = FuncType "field list" "field list option"

text \<open>
  Expressions and statements. A nil \<^verbatim>\<open>ast.Stmt\<close> is \<open>NilStmt\<close>; a nil expression is
  \<open>None\<close>. A field of type \<^verbatim>\<open>*ast.BlockStmt\<close> (the body of an if, a loop, a switch,
  a function literal) is the list of the block's statements. The fields are in the order
  of the Go structs: \<open>IfStmt Init Cond Body Else\<close>, \<open>ForStmt Init Cond Post Body\<close>,
  \<open>RangeStmt Key Value Tok X T Body\<close>, \<open>SwitchStmt Init Tag Body\<close>,
  \<open>TypeSwitchStmt Init Assign Body\<close>, \<open>BranchStmt Tok Label\<close>,
  \<open>AssignStmt Lhs Tok Rhs\<close>; a defer or go statement holds the function and the
  arguments of its call.

  The type checker's record of the type of a range statement's operand, which
  \<open>desugar\<close> reads as \<^verbatim>\<open>d.info.TypeOf(s.X)\<close>, is kept in the node (the field
  \<open>T\<close>). \<open>TypeExpr t\<close> is the expression that \<^verbatim>\<open>typeExpr(t)\<close> builds for a type
  (\<^verbatim>\<open>typeExpr\<close> is not in src).
\<close>

datatype expr =
    Ident string
  | BasicLit token string
  | CallExpr expr "expr list"
  | IndexExpr expr expr
  | IndexListExpr expr "expr list"
  | SelectorExpr expr string
  | BinaryExpr expr token expr
  | UnaryExpr token expr
  | StarExpr expr
  | FuncLit functype "stmt list"
  | TypeExpr gotype
  | OtherExpr string
and stmt =
    NilStmt
  | BlockStmt "stmt list"
  | IfStmt stmt expr "stmt list" stmt
  | ForStmt stmt "expr option" stmt "stmt list"
  | RangeStmt "expr option" "expr option" token expr gotype "stmt list"
  | SwitchStmt stmt "expr option" "stmt list"
  | TypeSwitchStmt stmt stmt "stmt list"
  | CaseClause "expr list" "stmt list"
  | BranchStmt token "string option"
  | LabeledStmt string stmt
  | SelectStmt "stmt list"
  | CommClause stmt "stmt list"
  | AssignStmt "expr list" token "expr list"
  | DeclStmt gendecl
  | DeferStmt expr "expr list"
  | EmptyStmt
  | ExprStmt expr
  | GoStmt expr "expr list"
  | IncDecStmt expr token
  | ReturnStmt "expr list"
  | SendStmt expr expr
  | BadStmt
and gendecl = GenDecl token "valuespec list"
and valuespec = ValueSpec "string list" "expr option" "expr list" | OtherSpec string

text \<open>
  A measure of statements for the termination of \<open>desugar\<close>, which calls itself on
  statements that it builds from a range statement: a range over a map weighs more than
  the range over a slice that replaces it, which weighs more than its counting loop.
\<close>

fun weight :: "stmt \<Rightarrow> nat" where
  "weight (BlockStmt l) = 2 + sum_list (map weight l)"
| "weight (IfStmt i c b e) = 2 + weight i + sum_list (map weight b) + weight e"
| "weight (ForStmt i c p b) = 2 + weight i + weight p + sum_list (map weight b)"
| "weight (RangeStmt k v t x xt b) =
     sum_list (map weight b) +
     (case xt of Types_Map kt vt \<Rightarrow> 20 | Types_Array et \<Rightarrow> 10 | Types_Slice et \<Rightarrow> 10 | _ \<Rightarrow> 1)"
| "weight (SwitchStmt i t b) = 2 + weight i + sum_list (map weight b)"
| "weight (TypeSwitchStmt i a b) = 2 + weight i + weight a + sum_list (map weight b)"
| "weight (CaseClause es b) = 2 + sum_list (map weight b)"
| "weight (LabeledStmt l s) = 1 + weight s"
| "weight s = 1"

section \<open>The desugarer\<close>

text \<open>
  \<^verbatim>\<open>type desugarer struct { info; vars int; labels int; unusedLabels; userLabels }\<close>.
  The generated labels are told apart by their names, which the counter makes unique; a
  user's label is its name. Of \<open>info\<close> the desugarer writes \<open>Defs\<close>, one entry for each
  new variable, kept here as the list \<open>Defs\<close>.
\<close>

record desugarer =
  vars :: nat
  labels :: nat
  unusedLabels :: "string set"
  userLabels :: "string \<rightharpoonup> string"
  Defs :: "(string \<times> gotype) list"

text \<open>\<^verbatim>\<open>strconv.Itoa\<close> on a counter, which is never negative.\<close>

definition digit_char :: "nat \<Rightarrow> char" where
  "digit_char n = ''0123456789'' ! n"

fun Itoa :: "nat \<Rightarrow> string" where
  "Itoa n = (if n < 10 then [digit_char n] else Itoa (n div 10) @ [digit_char (n mod 10)])"

declare Itoa.simps [simp del]

definition newVar :: "desugarer \<Rightarrow> gotype \<Rightarrow> expr \<times> desugarer" where
  "newVar d t =
     (let v = ''_v'' @ Itoa (vars d)
      in (Ident v, d\<lparr>vars := vars d + 1, Defs := (v, t) # Defs d\<rparr>))"

definition newLabel :: "desugarer \<Rightarrow> string \<times> desugarer" where
  "newLabel d =
     (let l = ''_l'' @ Itoa (labels d)
      in (l, d\<lparr>labels := labels d + 1, unusedLabels := insert l (unusedLabels d)\<rparr>))"

definition addUserLabel :: "desugarer \<Rightarrow> string \<Rightarrow> string \<Rightarrow> desugarer" where
  "addUserLabel d userLabel replacement = d\<lparr>userLabels := (userLabels d)(userLabel \<mapsto> replacement)\<rparr>"

definition getUserLabel :: "desugarer \<Rightarrow> string \<Rightarrow> string option" where
  "getUserLabel d userLabel = userLabels d userLabel"

definition useLabel :: "desugarer \<Rightarrow> string option \<Rightarrow> desugarer" where
  "useLabel d label =
     (case label of None \<Rightarrow> d | Some l \<Rightarrow> d\<lparr>unusedLabels := unusedLabels d - {l}\<rparr>)"

definition isUnusedLabel :: "desugarer \<Rightarrow> string \<Rightarrow> bool" where
  "isUnusedLabel d label = (label \<in> unusedLabels d)"

definition isUnderscore :: "expr option \<Rightarrow> bool" where
  "isUnderscore e = (case e of Some (Ident name) \<Rightarrow> name = ''_'' | _ \<Rightarrow> False)"

text \<open>The type assertion \<^verbatim>\<open>e.(*ast.Ident)\<close>, which panics on anything else.\<close>

definition assertIdent :: "expr option \<Rightarrow> panic + expr" where
  "assertIdent e =
     (case e of
        Some (Ident name) \<Rightarrow> Inr (Ident name)
      | _ \<Rightarrow> Inl (PanicRuntime ''interface conversion: ast.Expr is not *ast.Ident''))"

text \<open>\<^verbatim>\<open>if userLabel != nil { d.addUserLabel(userLabel, l) }\<close>.\<close>

definition addLabel :: "desugarer \<Rightarrow> string option \<Rightarrow> string \<Rightarrow> desugarer" where
  "addLabel d userLabel l = (case userLabel of None \<Rightarrow> d | Some ul \<Rightarrow> addUserLabel d ul l)"

text \<open>\<^verbatim>\<open>if init != nil { stmt = &ast.BlockStmt{List: []ast.Stmt{init, stmt}} }\<close>.\<close>

definition withInit :: "stmt \<Rightarrow> stmt \<Rightarrow> stmt" where
  "withInit init stmt = (if init \<noteq> NilStmt then BlockStmt [init, stmt] else stmt)"

text \<open>
  The statements that the range case builds: the counting loop
  \<^verbatim>\<open>for i := 0; i < len(x); i++ { body }\<close>, the block that collects the keys of a map
  (\<^verbatim>\<open>keys := make([]K, 0, len(x)); for k := range x { keys = append(keys, k) }\<close>), and the
  body of the loop over the keys (\<^verbatim>\<open>if v, ok := x[key]; ok { body }\<close>).
\<close>

definition indexLoop :: "expr \<Rightarrow> expr \<Rightarrow> stmt list \<Rightarrow> stmt" where
  "indexLoop i x body =
     ForStmt (AssignStmt [i] token_DEFINE [BasicLit token_INT ''0''])
             (Some (BinaryExpr i token_LSS (CallExpr (Ident ''len'') [x])))
             (IncDecStmt i token_INC)
             body"

definition collectKeys :: "expr \<Rightarrow> gotype \<Rightarrow> expr \<Rightarrow> expr \<Rightarrow> gotype \<Rightarrow> stmt" where
  "collectKeys keys keySliceType k x typeOfX =
     BlockStmt
       [AssignStmt [keys] token_DEFINE
          [CallExpr (Ident ''make'')
             [TypeExpr keySliceType, BasicLit token_INT ''0'', CallExpr (Ident ''len'') [x]]],
        RangeStmt (Some k) None token_DEFINE x typeOfX
          [AssignStmt [keys] token_ASSIGN [CallExpr (Ident ''append'') [keys, k]]]]"

definition lookupBody :: "expr \<Rightarrow> expr \<Rightarrow> expr \<Rightarrow> expr \<Rightarrow> stmt list \<Rightarrow> stmt list" where
  "lookupBody mapValue ok x mapKey body =
     [IfStmt (AssignStmt [mapValue, ok] token_DEFINE [IndexExpr x mapKey]) ok body NilStmt]"

lemma weight_pos [simp]: "0 < weight s"
  by (cases s) (auto split: gotype.splits)

text \<open>
  \<^verbatim>\<open>func (d *desugarer) desugar(stmt ast.Stmt, breakTo, continueTo, userLabel *ast.Ident) ast.Stmt\<close>
  and \<open>desugarList\<close>. The desugarer \<open>d\<close> is passed along and returned; a label that is
  nil is \<open>None\<close>. The statements are handled in the order of the type switch. In the
  array and slice case the Go code also writes the longer body back into the range
  statement it was given, which nothing reads afterwards.
\<close>

function desugar ::
  "desugarer \<Rightarrow> stmt \<Rightarrow> string option \<Rightarrow> string option \<Rightarrow> string option \<Rightarrow> panic + (stmt \<times> desugarer)"
and desugarList ::
  "desugarer \<Rightarrow> stmt list \<Rightarrow> string option \<Rightarrow> string option \<Rightarrow> panic + (stmt list \<times> desugarer)"
where
  "desugar d NilStmt breakTo continueTo userLabel = Inr (NilStmt, d)"
| "desugar d (BlockStmt l) breakTo continueTo userLabel =
     (case desugarList d l breakTo continueTo of
        Inl e \<Rightarrow> Inl e
      | Inr (l', d1) \<Rightarrow> Inr (BlockStmt l', d1))"
| "desugar d (IfStmt sInit sCond sBody sElse) breakTo continueTo userLabel =
     (case desugar d sInit None None None of
        Inl e \<Rightarrow> Inl e
      | Inr (init, d1) \<Rightarrow>
     (case desugarList d1 sBody breakTo continueTo of
        Inl e \<Rightarrow> Inl e
      | Inr (body', d2) \<Rightarrow>
     (case desugar d2 sElse breakTo continueTo None of
        Inl e \<Rightarrow> Inl e
      | Inr (else', d3) \<Rightarrow>
          Inr (withInit init (IfStmt NilStmt sCond body' else'), d3))))"
| "desugar d (ForStmt sInit sCond sPost sBody) breakTo continueTo userLabel =
     (case desugar d sInit None None None of
        Inl e \<Rightarrow> Inl e
      | Inr (init, d1) \<Rightarrow>
     (let (forLabel, d2) = newLabel d1;
          d3 = addLabel d2 userLabel forLabel
      in
     (case desugarList d3 sBody (Some forLabel) (Some forLabel) of
        Inl e \<Rightarrow> Inl e
      | Inr (body', d4) \<Rightarrow>
     (case desugar d4 sPost None None None of
        Inl e \<Rightarrow> Inl e
      | Inr (post', d5) \<Rightarrow>
          Inr (withInit init (LabeledStmt forLabel (ForStmt NilStmt sCond post' body')), d5)))))"
| "desugar d (RangeStmt sKey sValue sTok sX typeOfX sBody) breakTo continueTo userLabel =
     (let (x, d1) = newVar d typeOfX;
          init = AssignStmt [x] token_DEFINE [sX]
      in
      if (case typeOfX of Types_Array et \<Rightarrow> True | Types_Slice et \<Rightarrow> True | _ \<Rightarrow> False)
      then
        (case (if sKey = None \<or> isUnderscore sKey
               then Inr (newVar d1 (Types_Basic ''int''))
               else map_sum id (\<lambda>i. (i, d1)) (assertIdent sKey)) of
           Inl e \<Rightarrow> Inl e
         | Inr (i, d2) \<Rightarrow>
             (let body1 = (if sValue \<noteq> None \<and> \<not> isUnderscore sValue
                           then AssignStmt [the sValue] token_DEFINE [IndexExpr x i] # sBody
                           else sBody)
              in
              case desugar d2 (indexLoop i x body1) breakTo continueTo userLabel of
                Inl e \<Rightarrow> Inl e
              | Inr (loop, d3) \<Rightarrow> Inr (BlockStmt [init, loop], d3)))
      else
        (case typeOfX of
           Types_Map keyType valueType \<Rightarrow>
             if sKey = None \<and> sValue = None
             then
               (let (i, d2) = newVar d1 (Types_Basic ''int'')
                in
                case desugar d2 (indexLoop i x sBody) breakTo continueTo userLabel of
                  Inl e \<Rightarrow> Inl e
                | Inr (loop, d3) \<Rightarrow> Inr (BlockStmt [init, loop], d3))
             else
               (let keySliceType = Types_Slice keyType;
                    (keys, d2) = newVar d1 keySliceType;
                    (k, d3) = newVar d2 (Types_Basic ''int'');
                    collect = collectKeys keys keySliceType k x typeOfX
                in
                case (if sKey = None \<or> isUnderscore sKey
                      then Inr (newVar d3 keyType)
                      else map_sum id (\<lambda>i. (i, d3)) (assertIdent sKey)) of
                  Inl e \<Rightarrow> Inl e
                | Inr (mapKey, d4) \<Rightarrow>
                (case (if sValue \<noteq> None then assertIdent sValue else Inr (Ident ''_'')) of
                  Inl e \<Rightarrow> Inl e
                | Inr mapValue \<Rightarrow>
                    (let (ok, d5) = newVar d4 (Types_Basic ''bool'')
                     in
                     case desugar d5
                            (RangeStmt None (Some mapKey) token_DEFINE keys keySliceType
                               (lookupBody mapValue ok x mapKey sBody))
                            breakTo continueTo userLabel of
                       Inl e \<Rightarrow> Inl e
                     | Inr (iterKeys, d6) \<Rightarrow> Inr (BlockStmt [init, collect, iterKeys], d6))))
         | _ \<Rightarrow> Inr (RangeStmt sKey sValue sTok sX typeOfX sBody, d1)))"
| "desugar d (SwitchStmt sInit sTag sBody) breakTo continueTo userLabel =
     (case desugar d sInit None None None of
        Inl e \<Rightarrow> Inl e
      | Inr (init, d1) \<Rightarrow>
     (let (switchLabel, d2) = newLabel d1;
          d3 = addLabel d2 userLabel switchLabel
      in
     (case desugarList d3 sBody (Some switchLabel) continueTo of
        Inl e \<Rightarrow> Inl e
      | Inr (body', d4) \<Rightarrow>
          Inr (withInit init (LabeledStmt switchLabel (SwitchStmt NilStmt sTag body')), d4))))"
| "desugar d (TypeSwitchStmt sInit sAssign sBody) breakTo continueTo userLabel =
     (case desugar d sInit None None None of
        Inl e \<Rightarrow> Inl e
      | Inr (init, d1) \<Rightarrow>
     (let (switchLabel, d2) = newLabel d1;
          d3 = addLabel d2 userLabel switchLabel
      in
     (case desugar d3 sAssign None None None of
        Inl e \<Rightarrow> Inl e
      | Inr (assign', d4) \<Rightarrow>
     (case desugarList d4 sBody (Some switchLabel) continueTo of
        Inl e \<Rightarrow> Inl e
      | Inr (body', d5) \<Rightarrow>
          Inr (withInit init (LabeledStmt switchLabel (TypeSwitchStmt NilStmt assign' body')), d5)))))"
| "desugar d (CaseClause sList sBody) breakTo continueTo userLabel =
     (case desugarList d sBody breakTo continueTo of
        Inl e \<Rightarrow> Inl e
      | Inr (body', d1) \<Rightarrow> Inr (CaseClause sList body', d1))"
| "desugar d (BranchStmt sTok sLabel) breakTo continueTo userLabel =
     (case sLabel of
        Some l \<Rightarrow>
          (case getUserLabel d l of
             None \<Rightarrow> Inl (PanicString (''label not found: '' @ l))
           | Some label \<Rightarrow> Inr (BranchStmt sTok (Some label), useLabel d (Some label)))
      | None \<Rightarrow>
          if sTok = token_BREAK then Inr (BranchStmt token_BREAK breakTo, useLabel d breakTo)
          else if sTok = token_CONTINUE then Inr (BranchStmt token_CONTINUE continueTo, useLabel d continueTo)
          else Inl (PanicString ''not implemented''))"
| "desugar d (LabeledStmt sLabel sStmt) breakTo continueTo userLabel =
     desugar d sStmt breakTo continueTo (Some sLabel)"
| "desugar d (SelectStmt l) breakTo continueTo userLabel = Inl (PanicString ''not implemented'')"
| "desugar d (CommClause c l) breakTo continueTo userLabel = Inl (PanicString ''not implemented'')"
| "desugar d (AssignStmt l t r) breakTo continueTo userLabel = Inr (AssignStmt l t r, d)"
| "desugar d (DeclStmt g) breakTo continueTo userLabel = Inr (DeclStmt g, d)"
| "desugar d (DeferStmt f a) breakTo continueTo userLabel = Inr (DeferStmt f a, d)"
| "desugar d EmptyStmt breakTo continueTo userLabel = Inr (EmptyStmt, d)"
| "desugar d (ExprStmt x) breakTo continueTo userLabel = Inr (ExprStmt x, d)"
| "desugar d (GoStmt f a) breakTo continueTo userLabel = Inr (GoStmt f a, d)"
| "desugar d (IncDecStmt x t) breakTo continueTo userLabel = Inr (IncDecStmt x t, d)"
| "desugar d (ReturnStmt r) breakTo continueTo userLabel = Inr (ReturnStmt r, d)"
| "desugar d (SendStmt c v) breakTo continueTo userLabel = Inr (SendStmt c v, d)"
| "desugar d BadStmt breakTo continueTo userLabel =
     Inl (PanicString ''unsupported ast.Stmt: *ast.BadStmt'')"
| "desugarList d [] breakTo continueTo = Inr ([], d)"
| "desugarList d (s # ss) breakTo continueTo =
     (case desugar d s breakTo continueTo None of
        Inl e \<Rightarrow> Inl e
      | Inr (s', d1) \<Rightarrow>
     (case desugarList d1 ss breakTo continueTo of
        Inl e \<Rightarrow> Inl e
      | Inr (ss', d2) \<Rightarrow> Inr (s' # ss', d2)))"
  by pat_completeness auto

termination
  apply (relation "measure (\<lambda>a. case a of
            Inl (d, s, b, c, u) \<Rightarrow> weight s
          | Inr (d, l, b, c) \<Rightarrow> Suc (sum_list (map weight l)))")
  apply (auto simp: indexLoop_def lookupBody_def split: gotype.splits)
  done

text \<open>
  The second pass of \<^verbatim>\<open>func desugar(stmt ast.Stmt, info *types.Info) ast.Stmt\<close>:
  \<^verbatim>\<open>astutil.Apply\<close> visits every node and replaces a labeled statement whose label is
  unused by the statement it labels. \<open>strip_node\<close> is the visit of a node, which may be
  replaced in its parent; \<open>strip_children\<close> walks the children of a node that stays.
  \<open>Apply\<close> goes on below the node it was called on, not below the replacement. The
  pass does not enter expressions here: no label of this desugarer is inside one.
\<close>

fun strip_node :: "desugarer \<Rightarrow> stmt \<Rightarrow> stmt"
and strip_children :: "desugarer \<Rightarrow> stmt \<Rightarrow> stmt"
where
  "strip_node d s =
     (case s of
        LabeledStmt l s1 \<Rightarrow> if isUnusedLabel d l then strip_children d s1 else strip_children d s
      | _ \<Rightarrow> strip_children d s)"
| "strip_children d (BlockStmt l) = BlockStmt (map (strip_node d) l)"
| "strip_children d (IfStmt i c b e) =
     IfStmt (strip_node d i) c (map (strip_node d) b) (strip_node d e)"
| "strip_children d (ForStmt i c p b) =
     ForStmt (strip_node d i) c (strip_node d p) (map (strip_node d) b)"
| "strip_children d (RangeStmt k v t x xt b) = RangeStmt k v t x xt (map (strip_node d) b)"
| "strip_children d (SwitchStmt i t b) = SwitchStmt (strip_node d i) t (map (strip_node d) b)"
| "strip_children d (TypeSwitchStmt i a b) =
     TypeSwitchStmt (strip_node d i) (strip_node d a) (map (strip_node d) b)"
| "strip_children d (CaseClause es b) = CaseClause es (map (strip_node d) b)"
| "strip_children d (LabeledStmt l s) = LabeledStmt l (strip_node d s)"
| "strip_children d (SelectStmt b) = SelectStmt (map (strip_node d) b)"
| "strip_children d (CommClause c b) = CommClause (strip_node d c) (map (strip_node d) b)"
| "strip_children d s = s"

text \<open>
  \<^verbatim>\<open>func desugar(stmt ast.Stmt, info *types.Info) ast.Stmt\<close>, the function that runs a
  fresh desugarer and then the second pass. It returns the statement it desugared, whose
  children the second pass has rewritten in place.
\<close>

definition new_desugarer :: desugarer where
  "new_desugarer = \<lparr>vars = 0, labels = 0, unusedLabels = {}, userLabels = Map.empty, Defs = []\<rparr>"

definition desugar_stmt :: "stmt \<Rightarrow> panic + stmt" where
  "desugar_stmt stmt =
     (case desugar new_desugarer stmt None None None of
        Inl e \<Rightarrow> Inl e
      | Inr (stmt1, d) \<Rightarrow> Inr (strip_children d stmt1))"

section \<open>The compiler: function bodies\<close>

text \<open>
  \<^verbatim>\<open>func isExpr(body *ast.BlockStmt) bool\<close>, on the list of the block: true if the body
  is composed of at most one expression.
\<close>

definition isExpr :: "stmt list \<Rightarrow> bool" where
  "isExpr body =
     (if length body = 0 then True
      else if length body = 1 \<and> (case body ! 0 of ExprStmt x \<Rightarrow> True | _ \<Rightarrow> False) then True
      else False)"

text \<open>
  The functions that \<open>compileFuncBody\<close> calls and that are not in src are parameters:
  \<^item> \<open>h_desugar\<close>: \<^verbatim>\<open>findCalls\<close>, \<^verbatim>\<open>markBranchStmt\<close> and the three-argument
    \<^verbatim>\<open>desugar(p, body, mayYield)\<close> that the compiler calls here (the desugarer above
    takes a statement and the type information only);
  \<^item> \<open>h_extractDecls\<close>: \<^verbatim>\<open>renameFuncRecvParamsResults\<close> and \<^verbatim>\<open>extractDecls\<close>, which give
    the declarations, the frame type and the frame initializer, from the body and the
    identifier \<open>defers\<close> (nil when the body has no defer statement);
  \<^item> \<open>h_defersField\<close>: the name of the last field of the frame type;
  \<^item> \<open>h_compileDispatch\<close>: \<^verbatim>\<open>renameObjects\<close>, \<^verbatim>\<open>trackDispatchSpans\<close>,
    \<^verbatim>\<open>findCalls\<close> and \<^verbatim>\<open>compileDispatch\<close>, from the scope's \<open>objectIndex\<close>
    (\<^verbatim>\<open>renameObjects\<close> is given the scope), the frame's name and the body to the
    statements of the dispatch and the new \<open>objectIndex\<close>.
\<close>

record helpers =
  h_desugar :: "stmt \<Rightarrow> panic + stmt"
  h_extractDecls :: "stmt list \<Rightarrow> expr option \<Rightarrow> gendecl list \<times> expr \<times> expr"
  h_defersField :: "expr \<Rightarrow> string"
  h_compileDispatch :: "nat \<Rightarrow> expr \<Rightarrow> stmt list \<Rightarrow> stmt list \<times> nat"

text \<open>
  The color of a function is the signature of the yield it reaches: the type of its
  first parameter and of its first result.
\<close>

record color =
  Param0 :: gotype
  Result0 :: gotype

text \<open>
  \<^verbatim>\<open>type scope struct { compiler; colors map[ast.Node]*types.Signature; objectIndex int; frameIndex int }\<close>.
  The nodes that \<open>compileFuncBody\<close> looks up in \<open>colors\<close> are function literals; a
  node is told apart by its contents.
\<close>

record scope =
  colors :: "expr \<rightharpoonup> color"
  objectIndex :: nat
  frameIndex :: nat

text \<open>
  \<open>compileFuncBody\<close> calls itself, through \<open>compileFuncLit\<close>, on the bodies of the
  function literals nested in the body that \<open>h_desugar\<close> returns. The depth of these
  calls is bounded by a number given to the function; an \<open>outcome\<close> is \<open>None\<close> when the
  bound is reached, \<open>Some (Inl e)\<close> for a panic and \<open>Some (Inr r)\<close> for a result.
\<close>

type_synonym 'a outcome = "(panic + 'a) option"

definition bind_o :: "'a outcome \<Rightarrow> ('a \<Rightarrow> 'b outcome) \<Rightarrow> 'b outcome" where
  "bind_o m f = (case m of None \<Rightarrow> None | Some (Inl e) \<Rightarrow> Some (Inl e) | Some (Inr a) \<Rightarrow> f a)"

definition defersIdent :: expr where
  "defersIdent = Ident ''_defers''"

text \<open>
  The pass of \<^verbatim>\<open>astutil.Apply\<close> in \<open>compileFuncBody\<close>, with the scope passed along in
  the order of the visit (the fields of a node in the order of go/ast). The callback, at
  a function literal: \<^verbatim>\<open>color, ok := scope.colors[n]; if ok { cursor.Replace(scope.compileFuncLit(p, n, color)) }; return false\<close>,
  so a literal that has a color is replaced by its compiled form (\<open>lit\<close> stands for
  \<open>compileFuncLit\<close>) and no literal is entered. Every other expression keeps its kind
  and has its children visited.
\<close>

fun apply_expr ::
  "(scope \<Rightarrow> functype \<Rightarrow> stmt list \<Rightarrow> color \<Rightarrow> (expr \<times> scope) outcome) \<Rightarrow> scope \<Rightarrow> expr \<Rightarrow> (expr \<times> scope) outcome"
and apply_exprs ::
  "(scope \<Rightarrow> functype \<Rightarrow> stmt list \<Rightarrow> color \<Rightarrow> (expr \<times> scope) outcome) \<Rightarrow> scope \<Rightarrow> expr list \<Rightarrow> (expr list \<times> scope) outcome"
where
  "apply_expr lit sc (FuncLit t b) =
     (case colors sc (FuncLit t b) of
        None \<Rightarrow> Some (Inr (FuncLit t b, sc))
      | Some c \<Rightarrow> lit sc t b c)"
| "apply_expr lit sc (CallExpr f args) =
     bind_o (apply_expr lit sc f) (\<lambda>(f', sc1).
     bind_o (apply_exprs lit sc1 args) (\<lambda>(args', sc2).
     Some (Inr (CallExpr f' args', sc2))))"
| "apply_expr lit sc (IndexExpr x i) =
     bind_o (apply_expr lit sc x) (\<lambda>(x', sc1).
     bind_o (apply_expr lit sc1 i) (\<lambda>(i', sc2).
     Some (Inr (IndexExpr x' i', sc2))))"
| "apply_expr lit sc (IndexListExpr x ixs) =
     bind_o (apply_expr lit sc x) (\<lambda>(x', sc1).
     bind_o (apply_exprs lit sc1 ixs) (\<lambda>(ixs', sc2).
     Some (Inr (IndexListExpr x' ixs', sc2))))"
| "apply_expr lit sc (SelectorExpr x sel) =
     bind_o (apply_expr lit sc x) (\<lambda>(x', sc1). Some (Inr (SelectorExpr x' sel, sc1)))"
| "apply_expr lit sc (BinaryExpr x tok y) =
     bind_o (apply_expr lit sc x) (\<lambda>(x', sc1).
     bind_o (apply_expr lit sc1 y) (\<lambda>(y', sc2).
     Some (Inr (BinaryExpr x' tok y', sc2))))"
| "apply_expr lit sc (UnaryExpr tok x) =
     bind_o (apply_expr lit sc x) (\<lambda>(x', sc1). Some (Inr (UnaryExpr tok x', sc1)))"
| "apply_expr lit sc (StarExpr x) =
     bind_o (apply_expr lit sc x) (\<lambda>(x', sc1). Some (Inr (StarExpr x', sc1)))"
| "apply_expr lit sc (Ident n) = Some (Inr (Ident n, sc))"
| "apply_expr lit sc (BasicLit k v) = Some (Inr (BasicLit k v, sc))"
| "apply_expr lit sc (TypeExpr t) = Some (Inr (TypeExpr t, sc))"
| "apply_expr lit sc (OtherExpr s) = Some (Inr (OtherExpr s, sc))"
| "apply_exprs lit sc [] = Some (Inr ([], sc))"
| "apply_exprs lit sc (e # es) =
     bind_o (apply_expr lit sc e) (\<lambda>(e', sc1).
     bind_o (apply_exprs lit sc1 es) (\<lambda>(es', sc2).
     Some (Inr (e' # es', sc2))))"

definition apply_expr_opt ::
  "(scope \<Rightarrow> functype \<Rightarrow> stmt list \<Rightarrow> color \<Rightarrow> (expr \<times> scope) outcome) \<Rightarrow> scope \<Rightarrow> expr option \<Rightarrow> (expr option \<times> scope) outcome"
where
  "apply_expr_opt lit sc x =
     (case x of
        None \<Rightarrow> Some (Inr (None, sc))
      | Some e \<Rightarrow> bind_o (apply_expr lit sc e) (\<lambda>(e', sc1). Some (Inr (Some e', sc1))))"

fun apply_specs ::
  "(scope \<Rightarrow> functype \<Rightarrow> stmt list \<Rightarrow> color \<Rightarrow> (expr \<times> scope) outcome) \<Rightarrow> scope \<Rightarrow> valuespec list \<Rightarrow> (valuespec list \<times> scope) outcome"
where
  "apply_specs lit sc [] = Some (Inr ([], sc))"
| "apply_specs lit sc (ValueSpec names t vs # specs) =
     bind_o (apply_expr_opt lit sc t) (\<lambda>(t', sc1).
     bind_o (apply_exprs lit sc1 vs) (\<lambda>(vs', sc2).
     bind_o (apply_specs lit sc2 specs) (\<lambda>(specs', sc3).
     Some (Inr (ValueSpec names t' vs' # specs', sc3)))))"
| "apply_specs lit sc (OtherSpec s # specs) =
     bind_o (apply_specs lit sc specs) (\<lambda>(specs', sc1). Some (Inr (OtherSpec s # specs', sc1)))"

text \<open>
  The callback, at a defer statement, replaces it by \<^verbatim>\<open>_defers = append(_defers, n.Call.Fun)\<close>
  and returns true, so the visit goes on in the call of the statement that was replaced:
  its function, then its arguments. What is done inside the function of the call shows in
  the new statement, which holds the same node; a function that is itself a literal with
  a color is compiled, and replaced in the call that is no longer in the tree, so the new
  statement keeps the literal as it was. No statement other than a defer statement
  changes its kind.
\<close>

fun apply_stmt ::
  "(scope \<Rightarrow> functype \<Rightarrow> stmt list \<Rightarrow> color \<Rightarrow> (expr \<times> scope) outcome) \<Rightarrow> scope \<Rightarrow> stmt \<Rightarrow> (stmt \<times> scope) outcome"
and apply_stmts ::
  "(scope \<Rightarrow> functype \<Rightarrow> stmt list \<Rightarrow> color \<Rightarrow> (expr \<times> scope) outcome) \<Rightarrow> scope \<Rightarrow> stmt list \<Rightarrow> (stmt list \<times> scope) outcome"
where
  "apply_stmt lit sc NilStmt = Some (Inr (NilStmt, sc))"
| "apply_stmt lit sc (BlockStmt l) =
     bind_o (apply_stmts lit sc l) (\<lambda>(l', sc1). Some (Inr (BlockStmt l', sc1)))"
| "apply_stmt lit sc (IfStmt i c b e) =
     bind_o (apply_stmt lit sc i) (\<lambda>(i', sc1).
     bind_o (apply_expr lit sc1 c) (\<lambda>(c', sc2).
     bind_o (apply_stmts lit sc2 b) (\<lambda>(b', sc3).
     bind_o (apply_stmt lit sc3 e) (\<lambda>(e', sc4).
     Some (Inr (IfStmt i' c' b' e', sc4))))))"
| "apply_stmt lit sc (ForStmt i c p b) =
     bind_o (apply_stmt lit sc i) (\<lambda>(i', sc1).
     bind_o (apply_expr_opt lit sc1 c) (\<lambda>(c', sc2).
     bind_o (apply_stmt lit sc2 p) (\<lambda>(p', sc3).
     bind_o (apply_stmts lit sc3 b) (\<lambda>(b', sc4).
     Some (Inr (ForStmt i' c' p' b', sc4))))))"
| "apply_stmt lit sc (RangeStmt k v t x xt b) =
     bind_o (apply_expr_opt lit sc k) (\<lambda>(k', sc1).
     bind_o (apply_expr_opt lit sc1 v) (\<lambda>(v', sc2).
     bind_o (apply_expr lit sc2 x) (\<lambda>(x', sc3).
     bind_o (apply_stmts lit sc3 b) (\<lambda>(b', sc4).
     Some (Inr (RangeStmt k' v' t x' xt b', sc4))))))"
| "apply_stmt lit sc (SwitchStmt i t b) =
     bind_o (apply_stmt lit sc i) (\<lambda>(i', sc1).
     bind_o (apply_expr_opt lit sc1 t) (\<lambda>(t', sc2).
     bind_o (apply_stmts lit sc2 b) (\<lambda>(b', sc3).
     Some (Inr (SwitchStmt i' t' b', sc3)))))"
| "apply_stmt lit sc (TypeSwitchStmt i a b) =
     bind_o (apply_stmt lit sc i) (\<lambda>(i', sc1).
     bind_o (apply_stmt lit sc1 a) (\<lambda>(a', sc2).
     bind_o (apply_stmts lit sc2 b) (\<lambda>(b', sc3).
     Some (Inr (TypeSwitchStmt i' a' b', sc3)))))"
| "apply_stmt lit sc (CaseClause es b) =
     bind_o (apply_exprs lit sc es) (\<lambda>(es', sc1).
     bind_o (apply_stmts lit sc1 b) (\<lambda>(b', sc2).
     Some (Inr (CaseClause es' b', sc2))))"
| "apply_stmt lit sc (BranchStmt t l) = Some (Inr (BranchStmt t l, sc))"
| "apply_stmt lit sc (LabeledStmt l s) =
     bind_o (apply_stmt lit sc s) (\<lambda>(s', sc1). Some (Inr (LabeledStmt l s', sc1)))"
| "apply_stmt lit sc (SelectStmt b) =
     bind_o (apply_stmts lit sc b) (\<lambda>(b', sc1). Some (Inr (SelectStmt b', sc1)))"
| "apply_stmt lit sc (CommClause cm b) =
     bind_o (apply_stmt lit sc cm) (\<lambda>(cm', sc1).
     bind_o (apply_stmts lit sc1 b) (\<lambda>(b', sc2).
     Some (Inr (CommClause cm' b', sc2))))"
| "apply_stmt lit sc (AssignStmt l t r) =
     bind_o (apply_exprs lit sc l) (\<lambda>(l', sc1).
     bind_o (apply_exprs lit sc1 r) (\<lambda>(r', sc2).
     Some (Inr (AssignStmt l' t r', sc2))))"
| "apply_stmt lit sc (DeclStmt (GenDecl t specs)) =
     bind_o (apply_specs lit sc specs) (\<lambda>(specs', sc1). Some (Inr (DeclStmt (GenDecl t specs'), sc1)))"
| "apply_stmt lit sc (DeferStmt f a) =
     bind_o (apply_expr lit sc f) (\<lambda>(f', sc1).
     bind_o (apply_exprs lit sc1 a) (\<lambda>(a', sc2).
     Some (Inr (AssignStmt [defersIdent] token_ASSIGN
                  [CallExpr (Ident ''append'')
                     [defersIdent, (case f of FuncLit t b \<Rightarrow> f | _ \<Rightarrow> f')]], sc2))))"
| "apply_stmt lit sc EmptyStmt = Some (Inr (EmptyStmt, sc))"
| "apply_stmt lit sc (ExprStmt x) =
     bind_o (apply_expr lit sc x) (\<lambda>(x', sc1). Some (Inr (ExprStmt x', sc1)))"
| "apply_stmt lit sc (GoStmt f a) =
     bind_o (apply_expr lit sc f) (\<lambda>(f', sc1).
     bind_o (apply_exprs lit sc1 a) (\<lambda>(a', sc2).
     Some (Inr (GoStmt f' a', sc2))))"
| "apply_stmt lit sc (IncDecStmt x t) =
     bind_o (apply_expr lit sc x) (\<lambda>(x', sc1). Some (Inr (IncDecStmt x' t, sc1)))"
| "apply_stmt lit sc (ReturnStmt r) =
     bind_o (apply_exprs lit sc r) (\<lambda>(r', sc1). Some (Inr (ReturnStmt r', sc1)))"
| "apply_stmt lit sc (SendStmt ch v) =
     bind_o (apply_expr lit sc ch) (\<lambda>(ch', sc1).
     bind_o (apply_expr lit sc1 v) (\<lambda>(v', sc2).
     Some (Inr (SendStmt ch' v', sc2))))"
| "apply_stmt lit sc BadStmt = Some (Inr (BadStmt, sc))"
| "apply_stmts lit sc [] = Some (Inr ([], sc))"
| "apply_stmts lit sc (s # ss) =
     bind_o (apply_stmt lit sc s) (\<lambda>(s', sc1).
     bind_o (apply_stmts lit sc1 ss) (\<lambda>(ss', sc2).
     Some (Inr (s' # ss', sc2))))"

text \<open>Whether the pass meets a defer statement, and so creates the identifier \<open>_defers\<close>
  (the local variable \<open>defers\<close> of \<open>compileFuncBody\<close>, nil otherwise). The pass
  enters no function literal.\<close>

fun has_defer :: "stmt \<Rightarrow> bool" where
  "has_defer (DeferStmt f a) = True"
| "has_defer (BlockStmt l) = (\<exists>s \<in> set l. has_defer s)"
| "has_defer (IfStmt i c b e) = (has_defer i \<or> (\<exists>s \<in> set b. has_defer s) \<or> has_defer e)"
| "has_defer (ForStmt i c p b) = (has_defer i \<or> has_defer p \<or> (\<exists>s \<in> set b. has_defer s))"
| "has_defer (RangeStmt k v t x xt b) = (\<exists>s \<in> set b. has_defer s)"
| "has_defer (SwitchStmt i t b) = (has_defer i \<or> (\<exists>s \<in> set b. has_defer s))"
| "has_defer (TypeSwitchStmt i a b) = (has_defer i \<or> has_defer a \<or> (\<exists>s \<in> set b. has_defer s))"
| "has_defer (CaseClause es b) = (\<exists>s \<in> set b. has_defer s)"
| "has_defer (LabeledStmt l s) = has_defer s"
| "has_defer (SelectStmt b) = (\<exists>s \<in> set b. has_defer s)"
| "has_defer (CommClause c b) = (has_defer c \<or> (\<exists>s \<in> set b. has_defer s))"
| "has_defer s = False"

text \<open>The statements of the prologue and of the epilogue, as \<open>compileFuncBody\<close> builds them.\<close>

definition loadContext :: "expr \<Rightarrow> color \<Rightarrow> stmt" where
  "loadContext ctx c =
     AssignStmt [ctx] token_DEFINE
       [CallExpr
          (IndexListExpr (SelectorExpr (Ident ''coroutine'') ''LoadContext'')
             [TypeExpr (Param0 c), TypeExpr (Result0 c)])
          []]"

definition pushFrame :: "expr \<Rightarrow> string \<Rightarrow> expr \<Rightarrow> stmt" where
  "pushFrame ctx frameName frameType =
     DeclStmt (GenDecl token_VAR
       [ValueSpec [frameName] (Some (StarExpr frameType))
          [CallExpr
             (IndexListExpr (SelectorExpr (Ident ''coroutine'') ''Push'') [frameType])
             [UnaryExpr token_AND (SelectorExpr ctx ''Stack'')]]])"

definition initFrame :: "expr \<Rightarrow> expr \<Rightarrow> stmt" where
  "initFrame frame frameInit =
     IfStmt NilStmt
       (BinaryExpr (SelectorExpr frame ''IP'') token_EQL (BasicLit token_INT ''0''))
       [AssignStmt [StarExpr frame] token_ASSIGN [frameInit]]
       NilStmt"

definition popFrame :: "expr \<Rightarrow> expr \<Rightarrow> string option \<Rightarrow> stmt list" where
  "popFrame ctx frame defersField =
     (let popFun = SelectorExpr (Ident ''coroutine'') ''Pop'';
          popArgs = [UnaryExpr token_AND (SelectorExpr ctx ''Stack'')]
      in case defersField of
           None \<Rightarrow> [ExprStmt (CallExpr popFun popArgs)]
         | Some field \<Rightarrow>
             [DeferStmt popFun popArgs,
              RangeStmt (Some (Ident ''_'')) (Some (Ident ''f'')) token_DEFINE
                (SelectorExpr frame field) (Types_Slice Types_Signature)
                [DeferStmt (Ident ''f'') []]])"

definition epilogue :: "expr \<Rightarrow> stmt list \<Rightarrow> stmt" where
  "epilogue ctx pop =
     DeferStmt
       (FuncLit (FuncType [] None)
          [IfStmt NilStmt (UnaryExpr token_NOT (CallExpr (SelectorExpr ctx ''Unwinding'') []))
             pop NilStmt])
       []"

text \<open>
  \<^verbatim>\<open>func funcTypeWithNamedResults(t *ast.FuncType) *ast.FuncType\<close>: every result without
  a name is named \<open>_\<close>.
\<close>

definition funcTypeWithNamedResults :: "functype \<Rightarrow> functype" where
  "funcTypeWithNamedResults t =
     (case t of
        FuncType params None \<Rightarrow> t
      | FuncType params (Some results) \<Rightarrow>
          FuncType params
            (Some (map (\<lambda>f. case f of Field names ft \<Rightarrow>
                               if length names = 0 then Field [''_''] ft else f) results)))"

text \<open>
  \<^verbatim>\<open>func (scope *scope) compileFuncBody(p, typ, body, recv, color) *ast.BlockStmt\<close>, on
  the list of the body, and \<^verbatim>\<open>func (scope *scope) compileFuncLit(p, fn, color) *ast.FuncLit\<close>,
  on the type and the body of the literal. The scope is passed and returned. The first
  argument bounds the depth of the calls: \<open>compileFuncBody\<close> at depth \<open>Suc k\<close> compiles
  the literals of its body with \<open>compileFuncLit\<close> at depth \<open>k\<close>. The type assertions
  \<^verbatim>\<open>.(*ast.BlockStmt)\<close> panic on a statement that is not a block.
\<close>

function compileFuncBody ::
  "nat \<Rightarrow> helpers \<Rightarrow> scope \<Rightarrow> functype \<Rightarrow> stmt list \<Rightarrow> color \<Rightarrow> (stmt list \<times> scope) outcome"
and compileFuncLit ::
  "nat \<Rightarrow> helpers \<Rightarrow> scope \<Rightarrow> functype \<Rightarrow> stmt list \<Rightarrow> color \<Rightarrow> (expr \<times> scope) outcome"
where
  "compileFuncBody 0 H sc typ body0 c = None"
| "compileFuncBody (Suc k) H sc typ body0 c =
     (case h_desugar H (BlockStmt body0) of
        Inl e \<Rightarrow> Some (Inl e)
      | Inr (BlockStmt body1) \<Rightarrow>
          (let defers = (if \<exists>s \<in> set body1. has_defer s then Some defersIdent else None)
           in
           bind_o (apply_stmts (\<lambda>sc' t b c'. compileFuncLit k H sc' t b c') sc body1) (\<lambda>(body, sc1).
           if isExpr body then Some (Inr (body, sc1))
           else
             (let ctx = Ident ''_c'';
                  frameName = ''_f'' @ Itoa (frameIndex sc1);
                  frame = Ident frameName;
                  sc2 = sc1\<lparr>frameIndex := frameIndex sc1 + 1\<rparr>;
                  (decls, frameType, frameInit) = h_extractDecls H body defers;
                  defersField = map_option (\<lambda>d. h_defersField H frameType) defers;
                  (compiledBody, objectIndex') = h_compileDispatch H (objectIndex sc2) frame body;
                  sc3 = sc2\<lparr>objectIndex := objectIndex'\<rparr>;
                  gen = [loadContext ctx c, pushFrame ctx frameName frameType]
                        @ map DeclStmt decls
                        @ [initFrame frame frameInit, epilogue ctx (popFrame ctx frame defersField)]
                        @ compiledBody;
                  needsReturn =
                    (case typ of
                       FuncType params (Some results) \<Rightarrow>
                         length results > 0 \<and>
                         (length gen = 0 \<or>
                          (case gen ! (length gen - 1) of ReturnStmt r \<Rightarrow> False | _ \<Rightarrow> True))
                     | FuncType params None \<Rightarrow> False)
              in Some (Inr (if needsReturn then gen @ [ReturnStmt []] else gen, sc3)))))
      | Inr _ \<Rightarrow> Some (Inl (PanicRuntime ''interface conversion: ast.Stmt is not *ast.BlockStmt'')))"
| "compileFuncLit k H sc t b c =
     bind_o (compileFuncBody k H sc t b c) (\<lambda>(body, sc1).
     (let gen = FuncLit (funcTypeWithNamedResults t) body
      in Some (Inr (gen, if \<not> isExpr body then sc1\<lparr>colors := (colors sc1)(gen \<mapsto> c)\<rparr> else sc1))))"
  by pat_completeness auto

termination
  by (relation "measure (\<lambda>a. case a of Inl (k, r) \<Rightarrow> 2 * k | Inr (k, r) \<Rightarrow> 2 * k + 1)") auto

text \<open>
  The desugarer of src in the place of \<open>h_desugar\<close>, with parameters that leave
  everything else as it is: a compiler to run \<open>compileFuncBody\<close> on.
\<close>

definition plain_helpers :: helpers where
  "plain_helpers =
     \<lparr>h_desugar = desugar_stmt,
      h_extractDecls = (\<lambda>body defers. ([], OtherExpr ''struct{}'', OtherExpr ''frame{}'')),
      h_defersField = (\<lambda>t. ''_defers''),
      h_compileDispatch = (\<lambda>objectIndex frame body. (body, objectIndex))\<rparr>"


text \<open>
  An outcome is below another when it is the same result or panic, or is \<open>None\<close>
  (the bound was reached); \<open>lit_le\<close> is this order on the compilers of literals.
\<close>

definition le_o :: "'a outcome \<Rightarrow> 'a outcome \<Rightarrow> bool" where
  "le_o m m' = (\<forall>r. m = Some r \<longrightarrow> m' = Some r)"

definition lit_le ::
  "(scope \<Rightarrow> functype \<Rightarrow> stmt list \<Rightarrow> color \<Rightarrow> (expr \<times> scope) outcome) \<Rightarrow>
   (scope \<Rightarrow> functype \<Rightarrow> stmt list \<Rightarrow> color \<Rightarrow> (expr \<times> scope) outcome) \<Rightarrow> bool"
where
  "lit_le lit lit' = (\<forall>sc t b c. le_o (lit sc t b c) (lit' sc t b c))"

section \<open>Properties of the type register\<close>
lemma attach_Inr_iff:
  "attach t sr ds m = Inr m' \<longleftrightarrow>
     sr \<noteq> None \<and> ds \<noteq> None \<and>
     m' = (case serdes m t of
             Some s0 \<Rightarrow> m\<lparr>serdes := (serdes m)(t \<mapsto> s0\<lparr>ser := sr, des := ds\<rparr>)\<rparr>
           | None \<Rightarrow> m\<lparr>custom := custom m @ [t],
                       serdes := (serdes m)(t \<mapsto> \<lparr>serde_id = int (length (custom m)), ser = sr, des = ds\<rparr>)\<rparr>)"
  by (auto simp: attach_def zero_serde_def Let_def split: option.splits)

lemma attach_custom:
  "attach t sr ds m = Inr m' \<Longrightarrow> custom m' = (if t \<in> dom (serdes m) then custom m else custom m @ [t])"
  by (auto simp: attach_Inr_iff split: option.splits)

lemma attach_dom:
  "attach t sr ds m = Inr m' \<Longrightarrow> dom (serdes m') = insert t (dom (serdes m))"
  by (auto simp: attach_Inr_iff split: option.splits)

lemma attach_keeps_id:
  "attach t' sr ds m = Inr m' \<Longrightarrow> serdes m t = Some s \<Longrightarrow>
   \<exists>s'. serdes m' t = Some s' \<and> serde_id s' = serde_id s"
  by (auto simp: attach_Inr_iff split: option.splits)

lemma attach_all_keeps_id:
  "attach_all m ops = Inr m' \<Longrightarrow> serdes m t = Some s \<Longrightarrow>
   \<exists>s'. serdes m' t = Some s' \<and> serde_id s' = serde_id s"
proof (induction ops arbitrary: m s)
  case Nil
  then show ?case by simp
next
  case (Cons a ops)
  obtain t' sr ds where a: "a = (t', sr, ds)" by (cases a)
  from Cons.prems(1) a obtain m1 where
    m1: "attach t' sr ds m = Inr m1" and rest: "attach_all m1 ops = Inr m'"
    by (auto split: sum.splits)
  from attach_keeps_id [OF m1 Cons.prems(2)] obtain s1 where
    "serdes m1 t = Some s1" "serde_id s1 = serde_id s" by blast
  with Cons.IH [OF rest] show ?case by fastforce
qed

lemma attach_all_append:
  "attach_all m (xs @ ys) = (case attach_all m xs of Inl e \<Rightarrow> Inl e | Inr m' \<Rightarrow> attach_all m' ys)"
  by (induction xs arbitrary: m) (auto split: sum.splits)

lemma typemap_inv_new: "typemap_inv newTypemap"
  by (simp add: typemap_inv_def newTypemap_def)

lemma typemap_inv_attach:
  assumes "typemap_inv m" "attach t sr ds m = Inr m'"
  shows "typemap_inv m'"
proof (cases "serdes m t")
  case None
  with assms(1) have notin: "t \<notin> set (custom m)" by (auto simp: typemap_inv_def)
  from None assms(2) have m': "m' = m\<lparr>custom := custom m @ [t],
     serdes := (serdes m)(t \<mapsto> \<lparr>serde_id = int (length (custom m)), ser = sr, des = ds\<rparr>)\<rparr>"
    by (simp add: attach_Inr_iff)
  have ids: "0 \<le> serde_id s \<and> serde_id s < int (length (custom m @ [t])) \<and>
             (custom m @ [t]) ! nat (serde_id s) = u"
    if "((serdes m)(t \<mapsto> \<lparr>serde_id = int (length (custom m)), ser = sr, des = ds\<rparr>)) u = Some s"
    for u s
  proof (cases "u = t")
    case True
    with that show ?thesis by auto
  next
    case False
    with that have old: "serdes m u = Some s" by simp
    with assms(1) have "0 \<le> serde_id s" "serde_id s < int (length (custom m))"
      "custom m ! nat (serde_id s) = u" by (auto simp: typemap_inv_def)
    moreover from this have "nat (serde_id s) < length (custom m)" by linarith
    ultimately show ?thesis by (simp add: nth_append)
  qed
  have doms: "set (custom m @ [t]) = dom ((serdes m)(t \<mapsto> \<lparr>serde_id = int (length (custom m)), ser = sr, des = ds\<rparr>))"
    using assms(1) by (auto simp: typemap_inv_def)
  have dist: "distinct (custom m @ [t])" using assms(1) notin by (simp add: typemap_inv_def)
  show ?thesis unfolding m' typemap_inv_def using ids doms dist by simp
next
  case (Some s0)
  with assms(2) have m': "m' = m\<lparr>serdes := (serdes m)(t \<mapsto> s0\<lparr>ser := sr, des := ds\<rparr>)\<rparr>"
    by (simp add: attach_Inr_iff)
  show ?thesis using assms(1) Some unfolding m' typemap_inv_def
    by auto
qed

lemma typemap_inv_attach_all:
  "typemap_inv m \<Longrightarrow> attach_all m ops = Inr m' \<Longrightarrow> typemap_inv m'"
proof (induction ops arbitrary: m)
  case Nil then show ?case by simp
next
  case (Cons a ops)
  obtain t sr ds where a: "a = (t, sr, ds)" by (cases a)
  from Cons.prems(2) a obtain m1 where
    m1: "attach t sr ds m = Inr m1" and rest: "attach_all m1 ops = Inr m'"
    by (auto split: sum.splits)
  show ?case using Cons.IH [OF typemap_inv_attach [OF Cons.prems(1) m1] rest] .
qed

lemma attach_all_dom:
  "attach_all m ops = Inr m' \<Longrightarrow> dom (serdes m') = dom (serdes m) \<union> fst ` set ops"
proof (induction ops arbitrary: m)
  case Nil then show ?case by simp
next
  case (Cons a ops)
  obtain t sr ds where a: "a = (t, sr, ds)" by (cases a)
  from Cons.prems a obtain m1 where
    m1: "attach t sr ds m = Inr m1" and rest: "attach_all m1 ops = Inr m'"
    by (auto split: sum.splits)
  show ?case using Cons.IH [OF rest] attach_dom [OF m1] a by auto
qed

lemma attach_all_custom:
  "typemap_inv m \<Longrightarrow> attach_all m ops = Inr m' \<Longrightarrow> custom m' = first_seen (custom m) (map fst ops)"
proof (induction ops arbitrary: m)
  case Nil then show ?case by simp
next
  case (Cons a ops)
  obtain t sr ds where a: "a = (t, sr, ds)" by (cases a)
  from Cons.prems(2) a obtain m1 where
    m1: "attach t sr ds m = Inr m1" and rest: "attach_all m1 ops = Inr m'"
    by (auto split: sum.splits)
  have inv1: "typemap_inv m1" using typemap_inv_attach [OF Cons.prems(1) m1] .
  have "set (custom m) = dom (serdes m)" using Cons.prems(1) by (simp add: typemap_inv_def)
  then have "custom m1 = (if t \<in> set (custom m) then custom m else custom m @ [t])"
    using attach_custom [OF m1] by simp
  then show ?case using Cons.IH [OF inv1 rest] a by simp
qed

lemma typemap_inv_length:
  "typemap_inv m \<Longrightarrow> length (custom m) = card (dom (serdes m))"
  by (metis typemap_inv_def distinct_card)


text \<open>
  Claim C3. Type ids are assigned in registration order starting at 0, and an id, once
  assigned, never changes. In a run from the empty register, a type first registered
  after the registrations \<open>pre\<close> gets the number of distinct types of \<open>pre\<close>
  as its id (0 for the first), and still has it after any further registrations
  \<open>post\<close>. From any state of the register, a type that has an id keeps it through
  every sequence of registrations. Registering a type again overwrites its two
  callbacks, keeps its id and adds nothing to \<open>custom\<close>.
\<close>

theorem type_id_registration_order:
  "(attach_all newTypemap (pre @ (t, sr, ds) # post) = Inr m \<and> t \<notin> fst ` set pre \<longrightarrow>
      (\<exists>s. serdes m t = Some s \<and> serde_id s = int (card (fst ` set pre))))
   \<and> (serdes m0 t0 = Some s0 \<and> attach_all m0 ops = Inr m1 \<longrightarrow>
      (\<exists>s1. serdes m1 t0 = Some s1 \<and> serde_id s1 = serde_id s0))
   \<and> (serdes m2 t2 = Some s2 \<and> attach t2 sr2 ds2 m2 = Inr m3 \<longrightarrow>
      serdes m3 t2 = Some (s2\<lparr>ser := sr2, des := ds2\<rparr>) \<and> custom m3 = custom m2)"
proof (intro conjI impI)
  assume h: "attach_all newTypemap (pre @ (t, sr, ds) # post) = Inr m \<and> t \<notin> fst ` set pre"
  let ?new = "newTypemap :: ('a, 'b, 'c, 'd) typemap"
  from h obtain ma where ma: "attach_all ?new pre = Inr ma"
    and rest: "attach_all ma ((t, sr, ds) # post) = Inr m"
    by (auto simp: attach_all_append split: sum.splits)
  from rest obtain mb where mb: "attach t sr ds ma = Inr mb" and post: "attach_all mb post = Inr m"
    by (auto split: sum.splits)
  have inv: "typemap_inv ma" using typemap_inv_attach_all [OF typemap_inv_new ma] .
  have dom_ma: "dom (serdes ma) = fst ` set pre"
    using attach_all_dom [OF ma] by (simp add: newTypemap_def)
  with h have fresh: "serdes ma t = None" by auto
  have len: "length (custom ma) = card (fst ` set pre)"
    using typemap_inv_length [OF inv] dom_ma by simp
  from mb fresh have "serdes mb t = Some \<lparr>serde_id = int (length (custom ma)), ser = sr, des = ds\<rparr>"
    by (simp add: attach_Inr_iff)
  from attach_all_keeps_id [OF post this] len
  show "\<exists>s. serdes m t = Some s \<and> serde_id s = int (card (fst ` set pre))" by auto
next
  assume "serdes m0 t0 = Some s0 \<and> attach_all m0 ops = Inr m1"
  then have "attach_all m0 ops = Inr m1" "serdes m0 t0 = Some s0" by simp_all
  then show "\<exists>s1. serdes m1 t0 = Some s1 \<and> serde_id s1 = serde_id s0"
    by (rule attach_all_keeps_id)
next
  assume "serdes m2 t2 = Some s2 \<and> attach t2 sr2 ds2 m2 = Inr m3"
  then show "serdes m3 t2 = Some (s2\<lparr>ser := sr2, des := ds2\<rparr>)"
    by (simp add: attach_Inr_iff)
next
  assume "serdes m2 t2 = Some s2 \<and> attach t2 sr2 ds2 m2 = Inr m3"
  then show "custom m3 = custom m2"
    by (simp add: attach_Inr_iff)
qed

text \<open>
  Claim C10. After every sequence of attach operations on the empty register, every
  registered type \<open>t\<close> has \<open>0 \<le> serdes[t].id < len(custom)\<close> and
  \<open>custom[serdes[t].id] = t\<close>; the registered types are the types of the sequence,
  and \<open>len(custom)\<close> is the number of distinct types registered.
\<close>

theorem typemap_ids_dense:
  assumes "attach_all newTypemap ops = Inr m"
  shows "(\<forall>t s. serdes m t = Some s \<longrightarrow>
            0 \<le> serde_id s \<and> serde_id s < int (length (custom m)) \<and> custom m ! nat (serde_id s) = t)
         \<and> dom (serdes m) = fst ` set ops
         \<and> length (custom m) = card (fst ` set ops)"
proof -
  have inv: "typemap_inv m" using typemap_inv_attach_all [OF typemap_inv_new assms] .
  have d: "dom (serdes m) = fst ` set ops"
    using attach_all_dom [OF assms] by (simp add: newTypemap_def)
  from inv have "\<forall>t s. serdes m t = Some s \<longrightarrow>
            0 \<le> serde_id s \<and> serde_id s < int (length (custom m)) \<and> custom m ! nat (serde_id s) = t"
    unfolding typemap_inv_def by blast
  with d typemap_inv_length [OF inv] show ?thesis by simp
qed


text \<open>The definitions a concrete run of the register unfolds.\<close>

lemmas typemap_eval = attach_def newTypemap_def zero_serde_def Let_def

theorem type_id_registration_order_witness:
  "\<exists>ma mb m.
     attach ''A'' (Some 7) (Some 7) (newTypemap :: (string, unit, nat, nat) typemap) = Inr ma
     \<and> attach ''B'' (Some 2) (Some 2) ma = Inr mb
     \<and> attach ''A'' (Some 3) (Some 4) mb = Inr m
     \<and> map_option serde_id (serdes ma ''A'') = Some 0
     \<and> serdes m ''A'' = Some \<lparr>serde_id = 0, ser = Some 3, des = Some 4\<rparr>
     \<and> map_option serde_id (serdes m ''B'') = Some 1
     \<and> custom m = custom mb"
proof -
  let ?new = "newTypemap :: (string, unit, nat, nat) typemap"
  obtain ma where ma: "attach ''A'' (Some 7) (Some 7) ?new = Inr ma"
    by (simp add: attach_Inr_iff)
  obtain mb where mb: "attach ''B'' (Some 2) (Some 2) ma = Inr mb"
    by (simp add: attach_Inr_iff)
  obtain m where m: "attach ''A'' (Some 3) (Some 4) mb = Inr m"
    by (simp add: attach_Inr_iff)
  have run: "attach_all ?new ([(''A'', Some 7, Some 7)] @ (''B'', Some 2, Some 2) # [(''A'', Some 3, Some 4)]) = Inr m"
    by (simp add: ma mb m)
  have a0: "serdes ma ''A'' = Some \<lparr>serde_id = 0, ser = Some 7, des = Some 7\<rparr>"
    using ma by (auto simp: typemap_eval)
  have ab: "serdes mb ''A'' = Some \<lparr>serde_id = 0, ser = Some 7, des = Some 7\<rparr>"
    using a0 mb by (auto simp: attach_def Let_def split: option.splits)
  note inst = type_id_registration_order
    [where pre = "[(''A'', Some 7, Some 7)]" and t = "''B''" and sr = "Some 2" and ds = "Some 2"
       and post = "[(''A'', Some 3, Some 4)]" and m = m
       and ?m0.0 = ma and ?t0.0 = "''A''" and ?s0.0 = "\<lparr>serde_id = 0, ser = Some 7, des = Some 7\<rparr>"
       and ops = "[(''B'', Some 2, Some 2), (''A'', Some 3, Some 4)]" and ?m1.0 = m
       and ?m2.0 = mb and ?t2.0 = "''A''" and ?s2.0 = "\<lparr>serde_id = 0, ser = Some 7, des = Some 7\<rparr>"
       and ?sr2.0 = "Some 3" and ?ds2.0 = "Some 4" and ?m3.0 = m]
  have rest: "attach_all ma [(''B'', Some 2, Some 2), (''A'', Some 3, Some 4)] = Inr m"
    by (simp add: mb m)
  from inst run a0 ab rest m have
    "(\<exists>s. serdes m ''B'' = Some s \<and> serde_id s = 1)
     \<and> serdes m ''A'' = Some \<lparr>serde_id = 0, ser = Some 3, des = Some 4\<rparr> \<and> custom m = custom mb"
    by simp
  with ma mb m a0 show ?thesis by auto
qed

theorem typemap_ids_dense_witness:
  "\<exists>m. attach_all (newTypemap :: (string, unit, nat, nat) typemap)
          [(''A'', Some 7, Some 7), (''B'', Some 2, Some 2), (''A'', Some 3, Some 4)] = Inr m
       \<and> custom m = [''A'', ''B'']
       \<and> dom (serdes m) = {''A'', ''B''}
       \<and> map_option serde_id (serdes m ''B'') = Some 1
       \<and> custom m ! nat 1 = ''B''
       \<and> length (custom m) = 2"
proof -
  let ?ops = "[(''A'', Some 7, Some 7), (''B'', Some 2, Some 2), (''A'', Some 3, Some (4::nat))] :: (string \<times> nat option \<times> nat option) list"
  obtain m where m: "attach_all (newTypemap :: (string, unit, nat, nat) typemap) ?ops = Inr m"
    by (simp add: typemap_eval)
  have c: "custom m = [''A'', ''B'']" using m by (auto simp: typemap_eval)
  have b: "map_option serde_id (serdes m ''B'') = Some 1" using m by (auto simp: typemap_eval)
  have "card (fst ` set ?ops) = 2" by (simp add: card_insert_if)
  with typemap_ids_dense [OF m] c b m show ?thesis by auto
qed

text \<open>
  Claim C4. \<open>Register\<close> with a nil serializer or deserializer should fail at
  registration time. It does not: \<open>registerSerde\<close> wraps each callback in a function
  literal before it calls \<open>attach\<close>, so the nil check of \<open>attach\<close> never sees a
  nil. Registering \<open>T\<close> with both callbacks nil succeeds, \<open>T\<close> gets id 0, and the
  nil callback is only met when the stored closure is called.
\<close>

theorem Register_nil_callbacks_accepted:
  "\<exists>m s f g.
     Register (newTypemap :: (string, unit, (nat, nat) serializerFunc, (nat, nat) serializerFunc) typemap)
       ''T'' None None = Inr m
     \<and> custom m = [''T'']
     \<and> serdes m ''T'' = Some s \<and> serde_id s = 0
     \<and> ser s = Some f \<and> des s = Some g
     \<and> f 0 0 = Inl (PanicRuntime ''invalid memory address or nil pointer dereference'')
     \<and> g 0 0 = Inl (PanicRuntime ''invalid memory address or nil pointer dereference'')"
  by (simp add: Register_def registerSerde_def call_func_def typemap_eval)

lemma Register_never_panics:
  "\<exists>m. Register tm t serializer deserializer = Inr m \<and> t \<in> dom (serdes m)"
  by (simp add: Register_def registerSerde_def attach_def Let_def split: option.splits)

lemma attach_nil_panics:
  "sr = None \<or> ds = None \<Longrightarrow>
   attach t sr ds m = Inl (PanicString ''both serializer and deserializer need to be provided'')"
  by (simp add: attach_def)

section \<open>Properties of the coroutine context\<close>

lemma Top_snoc: "Top \<lparr>Frames = fs @ [f]\<rparr> = Some f"
  by (simp add: Top_def)

lemma Yield_stopped:
  "stop c \<Longrightarrow> Yield c v = (Inl (PanicString ''cannot yield from a coroutine that has been stopped''), c)"
  by (simp add: Yield_def)

text \<open>
  With \<open>stop\<close> set the first statement of \<open>Yield\<close> panics, so the later
  \<^verbatim>\<open>if c.stop { panic(unwind{}) }\<close> of the resuming branch is never reached: a stopped
  context never gets the unwind sentinel from \<open>Yield\<close>.
\<close>

lemma Yield_stopped_never_unwinds:
  "stop c \<Longrightarrow> fst (Yield c v) \<noteq> Inl PanicUnwind"
  by (simp add: Yield_def)

lemma store_top_eq:
  assumes "Frames (Stack c) \<noteq> []"
  shows "c\<lparr>Stack := store_top (Stack c) ((last (Frames (Stack c)))\<lparr>Resume := r\<rparr>)\<rparr> = set_top_resume c r"
proof -
  from assms obtain fs f where fs: "Frames (Stack c) = fs @ [f]"
    by (metis append_butlast_last_id)
  then show ?thesis by (simp add: store_top_def set_top_resume_def)
qed

lemma Top_last: "Frames s \<noteq> [] \<Longrightarrow> Top s = Some (last (Frames s))"
  by (simp add: Top_def last_conv_nth)

lemma Yield_resuming:
  assumes "\<not> stop c" "Frames (Stack c) \<noteq> []" "Resume (last (Frames (Stack c)))"
  shows "Yield c v = (Inr (send c), set_top_resume c False)"
  using assms store_top_eq [OF assms(2), of False]
  by (simp add: Yield_def Top_last Let_def) (simp add: set_top_resume_def)

lemma Yield_suspending:
  assumes "\<not> stop c" "Frames (Stack c) \<noteq> []" "\<not> Resume (last (Frames (Stack c)))"
  shows "Yield c v = (Inl PanicUnwind, (set_top_resume c True)\<lparr>recv := v, send := 0\<rparr>)"
  using assms store_top_eq [OF assms(2), of True]
  by (simp add: Yield_def Top_last Let_def)

text \<open>
  Claim C1, with the message the code aborts with. For every context that is stopped or
  has a frame on its stack, and every value, \<open>Yield\<close> is the dispatch of the
  specification's table: when \<open>stop\<close> is set it aborts with the message "cannot yield
  from a coroutine that has been stopped"; otherwise, on a top frame that is resuming it
  clears \<open>resume\<close> and returns \<open>send\<close> (raising the unwind sentinel should \<open>stop\<close> be
  set); on a top frame that is not resuming it stores the value into \<open>recv\<close>, clears
  \<open>send\<close>, sets \<open>resume\<close> and raises the unwind sentinel.
\<close>

theorem Yield_dispatch:
  assumes "stop c \<or> Frames (Stack c) \<noteq> []"
  shows "Yield c v = Yield_table ''cannot yield from a coroutine that has been stopped'' c v"
proof (cases "stop c")
  case True
  then show ?thesis by (simp add: Yield_stopped Yield_table_def)
next
  case False
  with assms have ne: "Frames (Stack c) \<noteq> []" by simp
  have keep: "stop (set_top_resume c False) = stop c" by (simp add: set_top_resume_def)
  show ?thesis
  proof (cases "Resume (last (Frames (Stack c)))")
    case True
    with False ne keep show ?thesis by (simp add: Yield_resuming Yield_table_def)
  next
    case r: False
    with False ne show ?thesis by (simp add: Yield_suspending Yield_table_def)
  qed
qed

theorem Yield_dispatch_witness:
  "Yield \<lparr>recv = 0::nat, send = 42::nat, done' = False, stop = False,
           Stack = \<lparr>Frames = [\<lparr>IP = 0, Resume = False\<rparr>, \<lparr>IP = 2, Resume = True\<rparr>]\<rparr>\<rparr> 5
   = (Inr 42, \<lparr>recv = 0, send = 42, done' = False, stop = False,
               Stack = \<lparr>Frames = [\<lparr>IP = 0, Resume = False\<rparr>, \<lparr>IP = 2, Resume = False\<rparr>]\<rparr>\<rparr>)
   \<and> Yield \<lparr>recv = 0::nat, send = 42::nat, done' = False, stop = False,
           Stack = \<lparr>Frames = [\<lparr>IP = 0, Resume = False\<rparr>, \<lparr>IP = 2, Resume = False\<rparr>]\<rparr>\<rparr> 5
   = (Inl PanicUnwind, \<lparr>recv = 5, send = 0, done' = False, stop = False,
               Stack = \<lparr>Frames = [\<lparr>IP = 0, Resume = False\<rparr>, \<lparr>IP = 2, Resume = True\<rparr>]\<rparr>\<rparr>)"
  using Yield_dispatch [of "\<lparr>recv = 0::nat, send = 42::nat, done' = False, stop = False,
           Stack = \<lparr>Frames = [\<lparr>IP = 0, Resume = False\<rparr>, \<lparr>IP = 2, Resume = True\<rparr>]\<rparr>\<rparr>" 5]
    Yield_dispatch [of "\<lparr>recv = 0::nat, send = 42::nat, done' = False, stop = False,
           Stack = \<lparr>Frames = [\<lparr>IP = 0, Resume = False\<rparr>, \<lparr>IP = 2, Resume = False\<rparr>]\<rparr>\<rparr>" 5]
  by (simp add: Yield_table_def set_top_resume_def)

text \<open>
  The claim as written names the message "cannot yield from a stopped coroutine": on a
  stopped context the code aborts with another message.
\<close>

theorem Yield_abort_message_counterexample:
  "Yield \<lparr>recv = 0::nat, send = 42::nat, done' = False, stop = True,
           Stack = \<lparr>Frames = [\<lparr>IP = 1, Resume = False\<rparr>]\<rparr>\<rparr> 5
   \<noteq> Yield_table ''cannot yield from a stopped coroutine''
       \<lparr>recv = 0::nat, send = 42::nat, done' = False, stop = True,
        Stack = \<lparr>Frames = [\<lparr>IP = 1, Resume = False\<rparr>]\<rparr>\<rparr> 5"
  by (simp add: Yield_def Yield_table_def)

text \<open>
  Claim C2, as the code has it. Once \<open>stop\<close> is set, a yield on a context that is not
  resuming (\<open>Unwinding\<close> is false: the stack is empty or the top frame's \<open>resume\<close> is
  clear) does not raise the unwind sentinel: it aborts with the panic "cannot yield from a
  coroutine that has been stopped" and leaves the context as it was.
\<close>

theorem Yield_after_stop_aborts:
  assumes "stop c" "\<not> Unwinding c"
  shows "Yield c v = (Inl (PanicString ''cannot yield from a coroutine that has been stopped''), c)"
  using assms(1) by (rule Yield_stopped)

theorem Yield_after_stop_aborts_witness:
  "stop \<lparr>recv = 0::nat, send = 42::nat, done' = False, stop = True,
         Stack = \<lparr>Frames = [\<lparr>IP = 1, Resume = False\<rparr>]\<rparr>\<rparr>
   \<and> \<not> Unwinding \<lparr>recv = 0::nat, send = 42::nat, done' = False, stop = True,
         Stack = \<lparr>Frames = [\<lparr>IP = 1, Resume = False\<rparr>]\<rparr>\<rparr>
   \<and> Yield \<lparr>recv = 0::nat, send = 42::nat, done' = False, stop = True,
         Stack = \<lparr>Frames = [\<lparr>IP = 1, Resume = False\<rparr>]\<rparr>\<rparr> 5
     = (Inl (PanicString ''cannot yield from a coroutine that has been stopped''),
        \<lparr>recv = 0::nat, send = 42::nat, done' = False, stop = True,
         Stack = \<lparr>Frames = [\<lparr>IP = 1, Resume = False\<rparr>]\<rparr>\<rparr>)"
  using Yield_after_stop_aborts [of "\<lparr>recv = 0::nat, send = 42::nat, done' = False, stop = True,
         Stack = \<lparr>Frames = [\<lparr>IP = 1, Resume = False\<rparr>]\<rparr>\<rparr>" 5]
  by (simp add: Unwinding_def Top_def)

text \<open>
  The claim as written has the yield raise the unwind sentinel: on a stopped context
  whose top frame is not resuming, the panic of \<open>Yield\<close> is not the sentinel.
\<close>

theorem Yield_after_stop_counterexample:
  "fst (Yield \<lparr>recv = 0::nat, send = 42::nat, done' = False, stop = True,
               Stack = \<lparr>Frames = [\<lparr>IP = 1, Resume = False\<rparr>]\<rparr>\<rparr> 5) \<noteq> Inl PanicUnwind"
  by (simp add: Yield_def)





section \<open>Properties of the import synthesizer\<close>

lemma inspect_node_cases:
  "inspect_node imps n =
     (case binding n of
        None \<Rightarrow> Inr imps
      | Some (name, pkg) \<Rightarrow>
          (case imps name of
             Some existing \<Rightarrow>
               if existing \<noteq> pkg then Inl (PanicString ''conflicting imports'')
               else Inr (imps(name \<mapsto> pkg))
           | None \<Rightarrow> Inr (imps(name \<mapsto> pkg))))"
proof (cases n)
  case (Selector x sel)
  show ?thesis
  proof (cases x)
    case (XIdent name obj)
    with Selector show ?thesis by (cases obj) (simp_all add: Let_def)
  next
    case XOther
    with Selector show ?thesis by simp
  qed
next
  case OtherNode
  then show ?thesis by simp
qed

lemma inspect_node_Inl:
  "inspect_node imps n = Inl e \<Longrightarrow> e = PanicString ''conflicting imports''"
  by (auto simp: inspect_node_cases split: option.splits if_splits)

lemma inspect_node_Inr:
  assumes "inspect_node imps n = Inr imps'"
  shows "(\<forall>name pkg. imps name = Some pkg \<longrightarrow> imps' name = Some pkg)
         \<and> (\<forall>b. binding n = Some b \<longrightarrow> imps' (fst b) = Some (snd b))
         \<and> (\<forall>name pkg. imps' name = Some pkg \<longrightarrow>
               imps name = Some pkg \<or> binding n = Some (name, pkg))"
  using assms by (auto simp: inspect_node_cases split: option.splits if_splits)

lemma inspect_all_Inl:
  "inspect_all imps ns = Inl e \<Longrightarrow> e = PanicString ''conflicting imports''"
proof (induction ns arbitrary: imps)
  case Nil
  then show ?case by simp
next
  case (Cons n ns)
  then show ?case by (auto split: sum.splits dest: inspect_node_Inl)
qed

lemma inspect_all_Inr:
  "inspect_all imps ns = Inr imps' \<Longrightarrow>
     (\<forall>name pkg. imps name = Some pkg \<longrightarrow> imps' name = Some pkg)
     \<and> (\<forall>b \<in> bindings ns. imps' (fst b) = Some (snd b))"
proof (induction ns arbitrary: imps)
  case Nil
  then show ?case by (simp add: bindings_def)
next
  case (Cons n ns)
  from Cons.prems obtain mid where
    step: "inspect_node imps n = Inr mid" and rest: "inspect_all mid ns = Inr imps'"
    by (auto split: sum.splits)
  note a = inspect_node_Inr [OF step] and b = Cons.IH [OF rest]
  have keep: "\<forall>name pkg. imps name = Some pkg \<longrightarrow> imps' name = Some pkg"
    using a b by blast
  have here: "\<forall>b. binding n = Some b \<longrightarrow> imps' (fst b) = Some (snd b)"
    using a b by blast
  have "\<forall>b \<in> bindings (n # ns). imps' (fst b) = Some (snd b)"
    using here b by (auto simp: bindings_def)
  with keep show ?case by blast
qed

lemma inspect_all_no_conflict:
  assumes "\<forall>b \<in> bindings ns. \<forall>pkg. imps (fst b) = Some pkg \<longrightarrow> pkg = snd b"
    and "\<not> conflicting ns"
  shows "\<exists>imps'. inspect_all imps ns = Inr imps'"
  using assms
proof (induction ns arbitrary: imps)
  case Nil
  then show ?case by simp
next
  case (Cons n ns)
  have sub: "bindings ns \<subseteq> bindings (n # ns)" by (auto simp: bindings_def)
  have nc: "\<not> conflicting ns" using Cons.prems(2) sub unfolding conflicting_def by blast
  have "\<exists>mid. inspect_node imps n = Inr mid"
  proof (cases "binding n")
    case None
    then show ?thesis by (simp add: inspect_node_cases)
  next
    case (Some b)
    obtain name pkg where b: "b = (name, pkg)" by (cases b)
    from Some b have mem: "(name, pkg) \<in> bindings (n # ns)" by (simp add: bindings_def)
    show ?thesis
    proof (cases "imps name")
      case None
      with Some b show ?thesis by (simp add: inspect_node_cases)
    next
      case (Some existing)
      with Cons.prems(1) mem have "existing = pkg" by fastforce
      with Some \<open>binding n = Some b\<close> b show ?thesis by (simp add: inspect_node_cases)
    qed
  qed
  then obtain mid where step: "inspect_node imps n = Inr mid" ..
  have "\<forall>b \<in> bindings ns. \<forall>pkg. mid (fst b) = Some pkg \<longrightarrow> pkg = snd b"
  proof (intro ballI allI impI)
    fix b pkg assume b: "b \<in> bindings ns" and m: "mid (fst b) = Some pkg"
    from inspect_node_Inr [OF step] have
      "\<forall>name pkg. mid name = Some pkg \<longrightarrow> imps name = Some pkg \<or> binding n = Some (name, pkg)"
      by (rule conjunct2 [THEN conjunct2])
    with m consider "imps (fst b) = Some pkg" | "binding n = Some (fst b, pkg)" by blast
    then show "pkg = snd b"
    proof cases
      case 1
      from b sub have "b \<in> bindings (n # ns)" by blast
      with Cons.prems(1) 1 show ?thesis by blast
    next
      case 2
      then have "(fst b, pkg) \<in> bindings (n # ns)" by (auto simp: bindings_def)
      moreover have "(fst b, snd b) \<in> bindings (n # ns)" using b sub by auto
      ultimately show ?thesis using Cons.prems(2) unfolding conflicting_def by blast
    qed
  qed
  from Cons.IH [OF this nc] step show ?case by auto
qed

text \<open>
  Claim C8. Whenever the nodes of a generated file bind two distinct import paths to the
  same local name, \<open>addImports\<close> panics with "conflicting imports"; the panic passes
  through the rest of \<open>compilePackage\<close>, which does not write the generated file, and
  ends the invocation. Without such a pair \<open>addImports\<close> does not panic.
\<close>

theorem addImports_conflict:
  "(conflicting nodes \<longrightarrow>
      addImports nodes gen = Inl (PanicString ''conflicting imports'')
      \<and> compilePackage_emit writeFile nodes gen goFile = Inl (PanicString ''conflicting imports''))
   \<and> (\<not> conflicting nodes \<longrightarrow> (\<exists>gen'. addImports nodes gen = Inr gen'))"
proof (intro conjI impI)
  assume c: "conflicting nodes"
  then obtain name p q where
    p: "(name, p) \<in> bindings nodes" and q: "(name, q) \<in> bindings nodes" and pq: "p \<noteq> q"
    unfolding conflicting_def by blast
  have "inspect_all Map.empty nodes = Inl (PanicString ''conflicting imports'')"
  proof (cases "inspect_all Map.empty nodes")
    case (Inl e)
    with inspect_all_Inl show ?thesis by blast
  next
    case (Inr imps')
    from inspect_all_Inr [OF Inr] p q have "imps' name = Some p" "imps' name = Some q"
      by force+
    with pq show ?thesis by simp
  qed
  then show a: "addImports nodes gen = Inl (PanicString ''conflicting imports'')"
    by (simp add: addImports_def)
  show "compilePackage_emit writeFile nodes gen goFile = Inl (PanicString ''conflicting imports'')"
    by (simp add: compilePackage_emit_def a)
next
  assume "\<not> conflicting nodes"
  from inspect_all_no_conflict [OF _ this, of Map.empty]
  obtain imps' where "inspect_all Map.empty nodes = Inr imps'" by auto
  then show "\<exists>gen'. addImports nodes gen = Inr gen'"
    by (simp add: addImports_def)
qed

theorem addImports_conflict_witness:
  "conflicting [OtherNode,
                Selector (XIdent ''fmt'' (PkgName ''fmt'')) ''Println'',
                Selector (XIdent ''fmt'' (PkgName ''example.com/fmt'')) ''Sprint'']
   \<and> addImports [OtherNode,
                Selector (XIdent ''fmt'' (PkgName ''fmt'')) ''Println'',
                Selector (XIdent ''fmt'' (PkgName ''example.com/fmt'')) ''Sprint'']
        \<lparr>Decls = [Decl (0::nat)]\<rparr>
      = Inl (PanicString ''conflicting imports'')
   \<and> \<not> conflicting [Selector (XIdent ''fmt'' (PkgName ''vendor/fmt'')) ''Println'',
                  Selector (XIdent ''fmt'' (PkgName ''fmt'')) ''Sprint'']
   \<and> addImports [Selector (XIdent ''fmt'' (PkgName ''vendor/fmt'')) ''Println'',
                  Selector (XIdent ''fmt'' (PkgName ''fmt'')) ''Sprint'']
        \<lparr>Decls = [Decl (0::nat)]\<rparr>
      = Inr \<lparr>Decls = [ImportDecl [''fmt'' \<mapsto> ''fmt''], Decl 0]\<rparr>"
proof -
  let ?bad = "[OtherNode,
                Selector (XIdent ''fmt'' (PkgName ''fmt'')) ''Println'',
                Selector (XIdent ''fmt'' (PkgName ''example.com/fmt'')) ''Sprint'']"
  let ?good = "[Selector (XIdent ''fmt'' (PkgName ''vendor/fmt'')) ''Println'',
                  Selector (XIdent ''fmt'' (PkgName ''fmt'')) ''Sprint'']"
  let ?gen = "\<lparr>Decls = [Decl (0::nat)]\<rparr>"
  have bad: "conflicting ?bad"
    unfolding conflicting_def bindings_def
    by (rule exI [of _ "''fmt''"], rule exI [of _ "''fmt''"], rule exI [of _ "''example.com/fmt''"])
       (simp add: TrimPrefix_def)
  have good: "\<not> conflicting ?good"
    by (auto simp: conflicting_def bindings_def TrimPrefix_def)
  have run: "addImports ?good ?gen = Inr \<lparr>Decls = [ImportDecl [''fmt'' \<mapsto> ''fmt''], Decl 0]\<rparr>"
    by (simp add: addImports_def TrimPrefix_def Let_def)
  from addImports_conflict [of ?bad ?gen "\<lambda>p f. None" "''a.go''"]
       addImports_conflict [of ?good ?gen "\<lambda>p f. None" "''a.go''"] bad good run
  show ?thesis by simp
qed

section \<open>Properties of the desugarer\<close>

text \<open>The counting loop: its body is desugared under a new label, which it carries.\<close>

lemma desugar_indexLoop:
  "desugar d (indexLoop i x body) breakTo continueTo userLabel =
     (let (l, d1) = newLabel d;
          d2 = addLabel d1 userLabel l
      in case desugarList d2 body (Some l) (Some l) of
           Inl e \<Rightarrow> Inl e
         | Inr (body', d3) \<Rightarrow>
             Inr (BlockStmt
                    [AssignStmt [i] token_DEFINE [BasicLit token_INT ''0''],
                     LabeledStmt l
                       (ForStmt NilStmt
                          (Some (BinaryExpr i token_LSS (CallExpr (Ident ''len'') [x])))
                          (IncDecStmt i token_INC) body')], d3))"
  by (simp add: indexLoop_def withInit_def Let_def split_def split: sum.splits)

lemma desugarList_lookupBody:
  "desugarList d (AssignStmt lhs tok rhs # lookupBody mapValue ok x mapKey body) breakTo continueTo =
     (case desugarList d body breakTo continueTo of
        Inl e \<Rightarrow> Inl e
      | Inr (body', d1) \<Rightarrow>
          Inr ([AssignStmt lhs tok rhs,
                BlockStmt
                  [AssignStmt [mapValue, ok] token_DEFINE [IndexExpr x mapKey],
                   IfStmt NilStmt ok body' NilStmt]], d1))"
  by (simp add: lookupBody_def withInit_def split: sum.splits)

text \<open>A range over a slice that binds the value only, to a variable that is not \<open>_\<close>.\<close>

lemma desugar_range_slice_value:
  assumes "v \<noteq> ''_''"
  shows
    "desugar d (RangeStmt None (Some (Ident v)) tok keys (Types_Slice kt) body)
       breakTo continueTo userLabel =
     (let (x, d1) = newVar d (Types_Slice kt);
          (i, d2) = newVar d1 (Types_Basic ''int'')
      in case desugar d2 (indexLoop i x (AssignStmt [Ident v] token_DEFINE [IndexExpr x i] # body))
                breakTo continueTo userLabel of
           Inl e \<Rightarrow> Inl e
         | Inr (loop, d3) \<Rightarrow> Inr (BlockStmt [AssignStmt [x] token_DEFINE [keys], loop], d3))"
  using assms
  by (subst desugar.simps)
     (simp add: isUnderscore_def Let_def split_def del: desugar.simps desugarList.simps)

text \<open>The second loop of a range over a map: the loop over the keys.\<close>

lemma desugar_iterKeys:
  assumes "kn \<noteq> ''_''"
  shows
    "desugar d (RangeStmt None (Some (Ident kn)) tok keys (Types_Slice kt)
                  (lookupBody mapValue ok x (Ident kn) body)) breakTo continueTo userLabel =
     (let (keys', d1) = newVar d (Types_Slice kt);
          (i, d2) = newVar d1 (Types_Basic ''int'');
          (l, d3) = newLabel d2;
          d4 = addLabel d3 userLabel l
      in case desugarList d4 body (Some l) (Some l) of
           Inl e \<Rightarrow> Inl e
         | Inr (body', d5) \<Rightarrow>
             Inr (BlockStmt
                    [AssignStmt [keys'] token_DEFINE [keys],
                     BlockStmt
                       [AssignStmt [i] token_DEFINE [BasicLit token_INT ''0''],
                        LabeledStmt l
                          (ForStmt NilStmt
                             (Some (BinaryExpr i token_LSS (CallExpr (Ident ''len'') [keys'])))
                             (IncDecStmt i token_INC)
                             [AssignStmt [Ident kn] token_DEFINE [IndexExpr keys' i],
                              BlockStmt
                                [AssignStmt [mapValue, ok] token_DEFINE [IndexExpr x (Ident kn)],
                                 IfStmt NilStmt ok body' NilStmt]])]],
                  d5))"
  by (simp add: desugar_range_slice_value [OF assms] desugar_indexLoop desugarList_lookupBody
        Let_def split_def del: desugar.simps desugarList.simps split: sum.splits)

text \<open>The range over a map that binds a key or a value, up to its second loop.\<close>

lemma desugar_range_map_split:
  assumes "sKey \<noteq> None \<or> sValue \<noteq> None"
  shows
    "desugar d (RangeStmt sKey sValue sTok sX (Types_Map keyType valueType) sBody)
       breakTo continueTo userLabel =
     (let (x, d1) = newVar d (Types_Map keyType valueType);
          (keys, d2) = newVar d1 (Types_Slice keyType);
          (k, d3) = newVar d2 (Types_Basic ''int'')
      in
      case (if sKey = None \<or> isUnderscore sKey
            then Inr (newVar d3 keyType)
            else map_sum id (\<lambda>i. (i, d3)) (assertIdent sKey)) of
        Inl e \<Rightarrow> Inl e
      | Inr (mapKey, d4) \<Rightarrow>
      (case (if sValue \<noteq> None then assertIdent sValue else Inr (Ident ''_'')) of
        Inl e \<Rightarrow> Inl e
      | Inr mapValue \<Rightarrow>
          (let (ok, d5) = newVar d4 (Types_Basic ''bool'')
           in
           case desugar d5
                  (RangeStmt None (Some mapKey) token_DEFINE keys (Types_Slice keyType)
                     (lookupBody mapValue ok x mapKey sBody))
                  breakTo continueTo userLabel of
             Inl e \<Rightarrow> Inl e
           | Inr (iterKeys, d6) \<Rightarrow>
               Inr (BlockStmt
                      [AssignStmt [x] token_DEFINE [sX],
                       collectKeys keys (Types_Slice keyType) k x (Types_Map keyType valueType),
                       iterKeys], d6))))"
proof -
  from assms have nn: "\<not> (sKey = None \<and> sValue = None)" by blast
  show ?thesis
    by (subst desugar.simps) (simp add: nn Let_def del: desugar.simps desugarList.simps)
qed

text \<open>
  The range over a map that binds neither key nor value: one counting loop up to the
  length of the map, around the desugared body.
\<close>

lemma desugar_range_map_simple:
  "desugar d (RangeStmt None None sTok sX (Types_Map keyType valueType) sBody)
       breakTo continueTo userLabel =
     (let (x, d1) = newVar d (Types_Map keyType valueType);
          (i, d2) = newVar d1 (Types_Basic ''int'');
          (l, d3) = newLabel d2;
          d4 = addLabel d3 userLabel l
      in case desugarList d4 sBody (Some l) (Some l) of
           Inl e \<Rightarrow> Inl e
         | Inr (body', d5) \<Rightarrow>
             Inr (BlockStmt
                    [AssignStmt [x] token_DEFINE [sX],
                     BlockStmt
                       [AssignStmt [i] token_DEFINE [BasicLit token_INT ''0''],
                        LabeledStmt l
                          (ForStmt NilStmt
                             (Some (BinaryExpr i token_LSS (CallExpr (Ident ''len'') [x])))
                             (IncDecStmt i token_INC) body')]], d5))"
  by (subst desugar.simps)
     (simp add: desugar_indexLoop Let_def split_def del: desugar.simps desugarList.simps
        split: sum.splits)

lemma newVar_fresh: "\<exists>name d'. newVar d t = (Ident name, d') \<and> name \<noteq> ''_''"
  by (simp add: newVar_def Let_def)

text \<open>
  Claim C5, for the range statements that bind a key or a value, over an operand whose
  type, as the type checker records it, is a map type itself (\<^verbatim>\<open>*types.Map\<close>, not a
  defined type whose underlying type is a map). Every such range statement whose key and
  value, where present, are identifiers, and of which at least one is present, is split
  in two. The result is a block of three statements: the map is
  bound to a new variable \<open>x\<close>; a block allocates a new slice \<open>keys\<close> with \<open>make\<close>
  and holds a range statement over \<open>x\<close>, left as a range statement, whose whole body is
  \<open>keys = append(keys, k)\<close>; and the desugared loop over \<open>keys\<close>, a labeled counting
  loop whose body binds the key to \<open>keys[i]\<close>, looks the value up again with
  \<open>value, ok := x[key]\<close> and runs the desugared body of the range statement under
  \<open>if ok\<close>, with no else branch. The new variables and the label are drawn from the
  desugarer in the order of the code, and the panics of desugaring the body are the
  only ones.
\<close>

theorem desugar_range_over_map:
  assumes "sKey \<noteq> None \<or> sValue \<noteq> None"
    and "sKey = None \<or> (\<exists>name. sKey = Some (Ident name))"
    and "sValue = None \<or> (\<exists>name. sValue = Some (Ident name))"
  shows
    "desugar d (RangeStmt sKey sValue sTok sX (Types_Map keyType valueType) sBody)
       breakTo continueTo userLabel =
     (let (x, d1) = newVar d (Types_Map keyType valueType);
          (keys, d2) = newVar d1 (Types_Slice keyType);
          (k, d3) = newVar d2 (Types_Basic ''int'');
          (mapKey, d4) = (if sKey = None \<or> isUnderscore sKey then newVar d3 keyType
                          else (the sKey, d3));
          mapValue = (if sValue \<noteq> None then the sValue else Ident ''_'');
          (ok, d5) = newVar d4 (Types_Basic ''bool'');
          (keys', d6) = newVar d5 (Types_Slice keyType);
          (i, d7) = newVar d6 (Types_Basic ''int'');
          (l, d8) = newLabel d7;
          d9 = addLabel d8 userLabel l
      in case desugarList d9 sBody (Some l) (Some l) of
           Inl e \<Rightarrow> Inl e
         | Inr (body', d10) \<Rightarrow>
             Inr (BlockStmt
                    [AssignStmt [x] token_DEFINE [sX],
                     BlockStmt
                       [AssignStmt [keys] token_DEFINE
                          [CallExpr (Ident ''make'')
                             [TypeExpr (Types_Slice keyType), BasicLit token_INT ''0'',
                              CallExpr (Ident ''len'') [x]]],
                        RangeStmt (Some k) None token_DEFINE x (Types_Map keyType valueType)
                          [AssignStmt [keys] token_ASSIGN [CallExpr (Ident ''append'') [keys, k]]]],
                     BlockStmt
                       [AssignStmt [keys'] token_DEFINE [keys],
                        BlockStmt
                          [AssignStmt [i] token_DEFINE [BasicLit token_INT ''0''],
                           LabeledStmt l
                             (ForStmt NilStmt
                                (Some (BinaryExpr i token_LSS (CallExpr (Ident ''len'') [keys'])))
                                (IncDecStmt i token_INC)
                                [AssignStmt [mapKey] token_DEFINE [IndexExpr keys' i],
                                 BlockStmt
                                   [AssignStmt [mapValue, ok] token_DEFINE [IndexExpr x mapKey],
                                    IfStmt NilStmt ok body' NilStmt]])]]],
                  d10))"
proof -
  have split: "sKey \<noteq> None \<or> sValue \<noteq> None" by (rule assms(1))
  obtain x d1 where v1: "newVar d (Types_Map keyType valueType) = (x, d1)"
    by (cases "newVar d (Types_Map keyType valueType)")
  obtain keys d2 where v2: "newVar d1 (Types_Slice keyType) = (keys, d2)"
    by (cases "newVar d1 (Types_Slice keyType)")
  obtain k d3 where v3: "newVar d2 (Types_Basic ''int'') = (k, d3)"
    by (cases "newVar d2 (Types_Basic ''int'')")
  obtain kn d4 where
    key: "(if sKey = None \<or> isUnderscore sKey then Inr (newVar d3 keyType)
           else map_sum id (\<lambda>i. (i, d3)) (assertIdent sKey)) = Inr (Ident kn, d4)"
    and key': "(if sKey = None \<or> isUnderscore sKey then newVar d3 keyType else (the sKey, d3))
               = (Ident kn, d4)"
    and kn: "kn \<noteq> ''_''"
  proof (cases "sKey = None \<or> isUnderscore sKey")
    case True
    from newVar_fresh [of d3 keyType] obtain name d' where
      nv: "newVar d3 keyType = (Ident name, d')" "name \<noteq> ''_''" by blast
    show ?thesis
      by (rule that [OF _ _ nv(2)]) (simp_all add: True nv(1))
  next
    case False
    then have k1: "sKey \<noteq> None" and k2: "\<not> isUnderscore sKey" by simp_all
    from assms(2) k1 obtain name where nm1: "sKey = Some (Ident name)" by blast
    from k2 nm1 have nm2: "name \<noteq> ''_''" by (simp add: isUnderscore_def)
    have nu: "\<not> isUnderscore (Some (Ident name))" using k2 nm1 by simp
    show ?thesis
      by (rule that [OF _ _ nm2]) (simp_all add: nm1 nu assertIdent_def)
  qed
  obtain mapValue where
    mv: "(if sValue \<noteq> None then assertIdent sValue else Inr (Ident ''_'')) = Inr mapValue"
    and mv': "(if sValue \<noteq> None then the sValue else Ident ''_'') = mapValue"
    using assms(3) by (auto simp: assertIdent_def)
  obtain ok d5 where v5: "newVar d4 (Types_Basic ''bool'') = (ok, d5)"
    by (cases "newVar d4 (Types_Basic ''bool'')")
  obtain keys' d6 where v6: "newVar d5 (Types_Slice keyType) = (keys', d6)"
    by (cases "newVar d5 (Types_Slice keyType)")
  obtain i d7 where v7: "newVar d6 (Types_Basic ''int'') = (i, d7)"
    by (cases "newVar d6 (Types_Basic ''int'')")
  obtain l d8 where v8: "newLabel d7 = (l, d8)"
    by (cases "newLabel d7")
  have lhs:
    "desugar d (RangeStmt sKey sValue sTok sX (Types_Map keyType valueType) sBody)
       breakTo continueTo userLabel =
     (case desugar d5
             (RangeStmt None (Some (Ident kn)) token_DEFINE keys (Types_Slice keyType)
                (lookupBody mapValue ok x (Ident kn) sBody))
             breakTo continueTo userLabel of
        Inl e \<Rightarrow> Inl e
      | Inr (iterKeys, d6) \<Rightarrow>
          Inr (BlockStmt
                 [AssignStmt [x] token_DEFINE [sX],
                  collectKeys keys (Types_Slice keyType) k x (Types_Map keyType valueType),
                  iterKeys], d6))"
    unfolding desugar_range_map_split [OF split]
    by (simp only: v1 v2 v3 key mv v5 Let_def prod.case sum.case)
  show ?thesis
    unfolding lhs desugar_iterKeys [OF kn]
    by (simp only: v1 v2 v3 key' mv' v5 v6 v7 v8 Let_def prod.case collectKeys_def)
       (simp del: desugar.simps desugarList.simps split: sum.splits)
qed

text \<open>
  What a concrete run of the desugarer unfolds: the two counters on a desugarer that is
  written out, and the definitions.
\<close>

lemma newVar_lit:
  "newVar \<lparr>vars = n, labels = l, unusedLabels = u, userLabels = ul, Defs = ds\<rparr> t =
     (Ident (''_v'' @ Itoa n),
      \<lparr>vars = n + 1, labels = l, unusedLabels = u, userLabels = ul, Defs = (''_v'' @ Itoa n, t) # ds\<rparr>)"
  by (simp add: newVar_def Let_def)

lemma newLabel_lit:
  "newLabel \<lparr>vars = n, labels = l, unusedLabels = u, userLabels = ul, Defs = ds\<rparr> =
     (''_l'' @ Itoa l,
      \<lparr>vars = n, labels = l + 1, unusedLabels = insert (''_l'' @ Itoa l) u, userLabels = ul, Defs = ds\<rparr>)"
  by (simp add: newLabel_def Let_def)

lemmas desugar_eval =
  newVar_lit newLabel_lit addLabel_def addUserLabel_def useLabel_def getUserLabel_def
  isUnderscore_def assertIdent_def indexLoop_def collectKeys_def lookupBody_def withInit_def
  new_desugarer_def Itoa.simps digit_char_def Let_def

theorem desugar_range_over_map_witness:
  "desugar new_desugarer
     (RangeStmt (Some (Ident ''k'')) (Some (Ident ''v'')) token_DEFINE (Ident ''m'')
        (Types_Map (Types_Basic ''string'') (Types_Basic ''int''))
        [ExprStmt (CallExpr (Ident ''f'') [Ident ''k'', Ident ''v'']), BranchStmt token_BREAK None])
     None None None
   = Inr (BlockStmt
       [AssignStmt [Ident ''_v0''] token_DEFINE [Ident ''m''],
        BlockStmt
         [AssignStmt [Ident ''_v1''] token_DEFINE
           [CallExpr (Ident ''make'')
             [TypeExpr (Types_Slice (Types_Basic ''string'')), BasicLit token_INT ''0'',
              CallExpr (Ident ''len'') [Ident ''_v0'']]],
          RangeStmt (Some (Ident ''_v2'')) None token_DEFINE (Ident ''_v0'')
           (Types_Map (Types_Basic ''string'') (Types_Basic ''int''))
           [AssignStmt [Ident ''_v1''] token_ASSIGN
             [CallExpr (Ident ''append'') [Ident ''_v1'', Ident ''_v2'']]]],
        BlockStmt
         [AssignStmt [Ident ''_v4''] token_DEFINE [Ident ''_v1''],
          BlockStmt
           [AssignStmt [Ident ''_v5''] token_DEFINE [BasicLit token_INT ''0''],
            LabeledStmt ''_l0''
             (ForStmt NilStmt
               (Some (BinaryExpr (Ident ''_v5'') token_LSS (CallExpr (Ident ''len'') [Ident ''_v4''])))
               (IncDecStmt (Ident ''_v5'') token_INC)
               [AssignStmt [Ident ''k''] token_DEFINE [IndexExpr (Ident ''_v4'') (Ident ''_v5'')],
                BlockStmt
                 [AssignStmt [Ident ''v'', Ident ''_v3''] token_DEFINE
                   [IndexExpr (Ident ''_v0'') (Ident ''k'')],
                  IfStmt NilStmt (Ident ''_v3'')
                   [ExprStmt (CallExpr (Ident ''f'') [Ident ''k'', Ident ''v'']),
                    BranchStmt token_BREAK (Some ''_l0'')]
                   NilStmt]])]]],
      \<lparr>vars = 6, labels = 1, unusedLabels = {}, userLabels = Map.empty,
       Defs =
         [(''_v5'', Types_Basic ''int''), (''_v4'', Types_Slice (Types_Basic ''string'')),
          (''_v3'', Types_Basic ''bool''), (''_v2'', Types_Basic ''int''),
          (''_v1'', Types_Slice (Types_Basic ''string'')),
          (''_v0'', Types_Map (Types_Basic ''string'') (Types_Basic ''int''))]\<rparr>)"
proof -
  have binds: "Some (Ident ''k'') \<noteq> None \<or> Some (Ident ''v'') \<noteq> None" by simp
  have key: "Some (Ident ''k'') = None \<or> (\<exists>name. Some (Ident ''k'') = Some (Ident name))" by simp
  have val: "Some (Ident ''v'') = None \<or> (\<exists>name. Some (Ident ''v'') = Some (Ident name))" by simp
  show ?thesis
    unfolding desugar_range_over_map [OF binds key val]
    by (simp add: desugar_eval)
qed

text \<open>
  The claim as written covers every range statement over a map. One that binds neither
  key nor value is not split: it becomes a single counting loop up to \<open>len\<close> of the
  map, with no loop that collects keys and no lookup.
\<close>

theorem desugar_range_over_map_counterexample:
  "desugar new_desugarer
     (RangeStmt None None token_DEFINE (Ident ''m'')
        (Types_Map (Types_Basic ''string'') (Types_Basic ''int''))
        [ExprStmt (CallExpr (Ident ''f'') [])])
     None None None
   = Inr (BlockStmt
       [AssignStmt [Ident ''_v0''] token_DEFINE [Ident ''m''],
        BlockStmt
         [AssignStmt [Ident ''_v1''] token_DEFINE [BasicLit token_INT ''0''],
          LabeledStmt ''_l0''
           (ForStmt NilStmt
             (Some (BinaryExpr (Ident ''_v1'') token_LSS (CallExpr (Ident ''len'') [Ident ''_v0''])))
             (IncDecStmt (Ident ''_v1'') token_INC)
             [ExprStmt (CallExpr (Ident ''f'') [])])]],
      \<lparr>vars = 2, labels = 1, unusedLabels = {''_l0''}, userLabels = Map.empty,
       Defs =
         [(''_v1'', Types_Basic ''int''),
          (''_v0'', Types_Map (Types_Basic ''string'') (Types_Basic ''int''))]\<rparr>)"
  by (simp add: desugar_eval)

text \<open>
  The switch of \<open>desugar\<close> is on the type that the type checker records for the
  operand, with no call of \<^verbatim>\<open>Underlying()\<close>. A range statement over an operand of a
  defined type (\<^verbatim>\<open>type Set map[string]bool\<close>) meets no case of it: the statement is
  returned as it is, its body not desugared, whatever it binds; only the variable
  \<open>x\<close> has been drawn.
\<close>

lemma desugar_range_named_type:
  "desugar d (RangeStmt sKey sValue sTok sX (Types_Named name underlying) sBody)
     breakTo continueTo userLabel
   = Inr (RangeStmt sKey sValue sTok sX (Types_Named name underlying) sBody,
          snd (newVar d (Types_Named name underlying)))"
  by (subst desugar.simps) (simp add: Let_def split: prod.splits)

lemma desugar_range_named_map_example:
  "desugar new_desugarer
     (RangeStmt (Some (Ident ''k'')) None token_DEFINE (Ident ''s'')
        (Types_Named ''Set'' (Types_Map (Types_Basic ''string'') (Types_Basic ''bool'')))
        [ExprStmt (CallExpr (Ident ''f'') [Ident ''k''])])
     None None None
   = Inr (RangeStmt (Some (Ident ''k'')) None token_DEFINE (Ident ''s'')
        (Types_Named ''Set'' (Types_Map (Types_Basic ''string'') (Types_Basic ''bool'')))
        [ExprStmt (CallExpr (Ident ''f'') [Ident ''k''])],
      \<lparr>vars = 1, labels = 0, unusedLabels = {}, userLabels = Map.empty,
       Defs =
         [(''_v0'', Types_Named ''Set'' (Types_Map (Types_Basic ''string'') (Types_Basic ''bool'')))]\<rparr>)"
  by (simp add: desugar_range_named_type desugar_eval del: desugar.simps)

section \<open>Properties of the compilation of function bodies\<close>


lemma isExpr_empty: "isExpr []"
  by (simp add: isExpr_def)


lemma desugar_stmt_empty: "desugar_stmt (BlockStmt []) = Inr (BlockStmt [])"
  by (simp add: desugar_stmt_def)

lemma bind_o_simps [simp]:
  "bind_o None f = None"
  "bind_o (Some (Inl e)) f = Some (Inl e)"
  "bind_o (Some (Inr a)) f = f a"
  by (simp_all add: bind_o_def)

text \<open>
  A greater bound on the depth of the calls changes no outcome but \<open>None\<close>.
\<close>

lemma le_o_refl: "le_o m m"
  by (simp add: le_o_def)

lemma le_o_bind: "le_o m m' \<Longrightarrow> (\<And>a. le_o (f a) (g a)) \<Longrightarrow> le_o (bind_o m f) (bind_o m' g)"
  by (auto simp: le_o_def bind_o_def split: option.splits sum.splits)

lemma le_o_case_prod: "(\<And>x y. le_o (f x y) (g x y)) \<Longrightarrow> le_o (case_prod f a) (case_prod g a)"
  by (cases a) simp

lemma apply_expr_le:
  "lit_le lit lit' \<Longrightarrow> le_o (apply_expr lit sc x) (apply_expr lit' sc x)"
  "lit_le lit lit' \<Longrightarrow> le_o (apply_exprs lit sc xs) (apply_exprs lit' sc xs)"
proof (induction lit sc x and lit sc xs rule: apply_expr_apply_exprs.induct)
  case (1 lit sc t b)
  then show ?case by (auto simp: lit_le_def le_o_refl split: option.splits)
qed (auto intro!: le_o_bind le_o_case_prod le_o_refl)

lemma apply_expr_opt_le:
  "lit_le lit lit' \<Longrightarrow> le_o (apply_expr_opt lit sc x) (apply_expr_opt lit' sc x)"
  by (auto simp: apply_expr_opt_def split: option.splits
        intro!: le_o_bind le_o_case_prod le_o_refl apply_expr_le)

lemma apply_specs_le:
  "lit_le lit lit' \<Longrightarrow> le_o (apply_specs lit sc specs) (apply_specs lit' sc specs)"
  by (induction lit sc specs rule: apply_specs.induct)
     (auto intro!: le_o_bind le_o_case_prod le_o_refl apply_expr_le apply_expr_opt_le)

lemma apply_stmt_le:
  "lit_le lit lit' \<Longrightarrow> le_o (apply_stmt lit sc s) (apply_stmt lit' sc s)"
  "lit_le lit lit' \<Longrightarrow> le_o (apply_stmts lit sc ss) (apply_stmts lit' sc ss)"
  by (induction lit sc s and lit sc ss rule: apply_stmt_apply_stmts.induct)
     (auto intro!: le_o_bind le_o_case_prod le_o_refl apply_expr_le apply_expr_opt_le apply_specs_le)

lemma le_o_None: "le_o None m"
  by (simp add: le_o_def)

lemma compileFuncBody_le_Suc:
  "le_o (compileFuncBody k H sc ft body0 c) (compileFuncBody (Suc k) H sc ft body0 c)"
proof (induction k arbitrary: sc ft body0 c)
  case 0
  show ?case by (simp add: le_o_None)
next
  case (Suc k)
  have lit: "lit_le (compileFuncLit k H) (compileFuncLit (Suc k) H)"
    unfolding lit_le_def compileFuncLit.simps
    by (intro allI le_o_bind le_o_refl Suc.IH)
  show ?case
  proof (cases "h_desugar H (BlockStmt body0)")
    case (Inl e)
    then show ?thesis by (simp add: le_o_refl)
  next
    case (Inr s)
    show ?thesis
    proof (cases s)
      case (BlockStmt body1)
      show ?thesis
        unfolding compileFuncBody.simps(2) [of "Suc k"] compileFuncBody.simps(2) [of k]
        by (simp only: Inr BlockStmt sum.case stmt.case Let_def)
           (intro le_o_bind apply_stmt_le(2) lit le_o_refl)
    qed (use Inr in \<open>simp_all add: le_o_refl\<close>)
  qed
qed

text \<open>
  The bound is only a bound: a result or a panic reached within a bound is reached
  within every greater bound.
\<close>

lemma compileFuncBody_bound_mono:
  "k \<le> k' \<Longrightarrow> compileFuncBody k H sc ft body0 c = Some r \<Longrightarrow>
     compileFuncBody k' H sc ft body0 c = Some r"
proof (induction k' arbitrary: r)
  case 0
  then show ?case by simp
next
  case (Suc k')
  show ?case
  proof (cases "k = Suc k'")
    case True
    with Suc.prems show ?thesis by simp
  next
    case False
    with Suc.prems have "k \<le> k'" by simp
    from Suc.IH [OF this Suc.prems(2)] compileFuncBody_le_Suc [of k' H sc ft body0 c]
    show ?thesis by (simp add: le_o_def)
  qed
qed







text \<open>
  Claim C9. A procedure whose body has no statement is not transformed either. Where
  desugaring leaves the body empty (as the desugarer of src does), the compiled body is
  the empty body, with no frame pushed and no prologue or epilogue, and the scope, its
  frame index included, is unchanged. This holds for every bound of at least one on the
  depth of the calls.
\<close>

theorem compileFuncBody_empty:
  "(h_desugar H (BlockStmt []) = Inr (BlockStmt []) \<longrightarrow>
      compileFuncBody (Suc k) H sc typ [] c = Some (Inr ([], sc)))
   \<and> (h_desugar H = desugar_stmt \<longrightarrow>
      compileFuncBody (Suc k) H sc typ [] c = Some (Inr ([], sc)))"
  by (simp add: isExpr_empty desugar_stmt_empty)

theorem compileFuncBody_empty_witness:
  "h_desugar plain_helpers = desugar_stmt
   \<and> h_desugar plain_helpers (BlockStmt []) = Inr (BlockStmt [])
   \<and> compileFuncBody (Suc 0) plain_helpers \<lparr>colors = Map.empty, objectIndex = 0, frameIndex = 0\<rparr>
         (FuncType [] (Some [Field [] (Types_Basic ''int'')])) []
         \<lparr>Param0 = Types_Basic ''int'', Result0 = Types_Basic ''int''\<rparr>
     = Some (Inr ([], \<lparr>colors = Map.empty, objectIndex = 0, frameIndex = 0\<rparr>))"
proof -
  have h: "h_desugar plain_helpers = desugar_stmt"
    by (simp add: plain_helpers_def)
  have d: "h_desugar plain_helpers (BlockStmt []) = Inr (BlockStmt [])"
    by (simp add: h desugar_stmt_empty)
  from compileFuncBody_empty [of plain_helpers 0
      "\<lparr>colors = Map.empty, objectIndex = 0, frameIndex = 0\<rparr>"
      "FuncType [] (Some [Field [] (Types_Basic ''int'')])"
      "\<lparr>Param0 = Types_Basic ''int'', Result0 = Types_Basic ''int''\<rparr>"] h d
  show ?thesis by simp
qed

text \<open>
  For contrast, a body of two statements is transformed: the compiled body starts with
  the load of the context and the push of the frame, and the frame index advances.
\<close>

lemma compileFuncBody_two_statements:
  "compileFuncBody (Suc 0) plain_helpers \<lparr>colors = Map.empty, objectIndex = 0, frameIndex = 0\<rparr>
     (FuncType [] None)
     [ExprStmt (CallExpr (Ident ''f'') []), ExprStmt (CallExpr (Ident ''g'') [])]
     \<lparr>Param0 = Types_Basic ''int'', Result0 = Types_Basic ''string''\<rparr>
   = Some (Inr
       ([loadContext (Ident ''_c'') \<lparr>Param0 = Types_Basic ''int'', Result0 = Types_Basic ''string''\<rparr>,
         pushFrame (Ident ''_c'') ''_f0'' (OtherExpr ''struct{}''),
         initFrame (Ident ''_f0'') (OtherExpr ''frame{}''),
         epilogue (Ident ''_c'') (popFrame (Ident ''_c'') (Ident ''_f0'') None),
         ExprStmt (CallExpr (Ident ''f'') []), ExprStmt (CallExpr (Ident ''g'') [])],
        \<lparr>colors = Map.empty, objectIndex = 0, frameIndex = 1\<rparr>))"
  by (simp add: plain_helpers_def desugar_stmt_def isExpr_def
        Itoa.simps digit_char_def Let_def)

end
